theory Spec2Isabelle
  imports Complex_Main "HOL-Library.Sublist"
begin

section \<open>Domain geometry\<close>

text \<open>
  The scripts compute with Python floats.  The model uses exact reals: every
  statement below is about the formulas of the source, not about binary rounding.
  A bounding box is the six-tuple \<open>(xmin, xmax, ymin, ymax, zmin, zmax)\<close> that
  \<open>compute_bounds\<close> returns.
\<close>

record bbox =
  xmin :: real
  xmax :: real
  ymin :: real
  ymax :: real
  zmin :: real
  zmax :: real

text \<open>\<open>generate_blockMeshDict.main\<close>, line 32: \<open>D = max(xmax - xmin, ymax - ymin, zmax - zmin)\<close>.\<close>

definition char_length :: "bbox \<Rightarrow> real" where
  "char_length b = max (max (xmax b - xmin b) (ymax b - ymin b)) (zmax b - zmin b)"

text \<open>\<open>generate_blockMeshDict.main\<close>, lines 41 to 46: the domain box extents.\<close>

definition domain_box :: "bbox \<Rightarrow> bbox" where
  "domain_box b =
     (let D = char_length b in
      \<lparr> xmin = xmin b - 3 * D, xmax = xmax b + 15 * D,
        ymin = ymin b - 3 * D, ymax = ymax b + 3 * D,
        zmin = zmin b - 3 * D, zmax = zmax b + 3 * D \<rparr>)"

text \<open>\<open>case_structure.py\<close>, line 107: the fixed refinement margin.\<close>

definition M2 :: real where
  "M2 = 2"

text \<open>
  \<open>case_structure.py\<close>, lines 108 and 109: the numbers printed into the \<open>min (...)\<close>
  and \<open>max (...)\<close> entries of the refinement box.  The first argument is the tuple
  read back from the block-mesh dictionary (\<open>xmin_m, ..., zmax_m\<close>), the second the
  surface bounds (\<open>stl_xmin, ..., stl_zmax\<close>).
\<close>

definition refinement_region :: "bbox \<Rightarrow> bbox \<Rightarrow> bbox" where
  "refinement_region m s =
     \<lparr> xmin = xmin s - M2, xmax = xmax m,
       ymin = ymin s - M2, ymax = ymax s + M2,
       zmin = zmin s - M2, zmax = zmax s + M2 \<rparr>"

text \<open>Containment of boxes, axis by axis.\<close>

definition strictly_contains :: "bbox \<Rightarrow> bbox \<Rightarrow> bool" where
  "strictly_contains outer inner \<longleftrightarrow>
     xmin outer < xmin inner \<and> xmax inner < xmax outer \<and>
     ymin outer < ymin inner \<and> ymax inner < ymax outer \<and>
     zmin outer < zmin inner \<and> zmax inner < zmax outer"

definition contained_in :: "bbox \<Rightarrow> bbox \<Rightarrow> bool" where
  "contained_in inner outer \<longleftrightarrow>
     xmin outer \<le> xmin inner \<and> xmax inner \<le> xmax outer \<and>
     ymin outer \<le> ymin inner \<and> ymax inner \<le> ymax outer \<and>
     zmin outer \<le> zmin inner \<and> zmax inner \<le> zmax outer"

definition unit_cube :: bbox where
  "unit_cube = \<lparr> xmin = 0, xmax = 1, ymin = 0, ymax = 1, zmin = 0, zmax = 1 \<rparr>"

definition point_box :: bbox where
  "point_box = \<lparr> xmin = 0, xmax = 0, ymin = 0, ymax = 0, zmin = 0, zmax = 0 \<rparr>"

definition half_cube :: bbox where
  "half_cube = \<lparr> xmin = 0, xmax = 1/2, ymin = 0, ymax = 1/2, zmin = 0, zmax = 1/2 \<rparr>"

section \<open>Number formatting\<close>

text \<open>
  \<open>f"{v:.6f}"\<close> prints the decimal expansion of \<open>v\<close> rounded to six places, ties to
  even, with a minus sign whenever \<open>v\<close> is negative (also when the digits are all
  zero).  The model takes \<open>v\<close> as a real; \<open>inf\<close> and \<open>nan\<close> are not modelled.
\<close>

definition round_half_even :: "real \<Rightarrow> int" where
  "round_half_even y =
     (let f = \<lfloor>y\<rfloor>; d = y - of_int f in
      if d < 1/2 then f
      else if 1/2 < d then f + 1
      else if even f then f else f + 1)"

definition digit_char :: "nat \<Rightarrow> char" where
  "digit_char d = ''0123456789'' ! (d mod 10)"

function show_nat :: "nat \<Rightarrow> string" where
  "show_nat n = (if n < 10 then [digit_char n] else show_nat (n div 10) @ [digit_char (n mod 10)])"
  by pat_completeness auto
termination
  by (relation "measure (\<lambda>n. n)") auto

declare show_nat.simps [simp del]

definition frac6 :: "nat \<Rightarrow> string" where
  "frac6 n = [digit_char (n div 100000), digit_char (n div 10000), digit_char (n div 1000),
              digit_char (n div 100), digit_char (n div 10), digit_char n]"

definition fmt6 :: "real \<Rightarrow> string" where
  "fmt6 v =
     (let n = nat (round_half_even (\<bar>v\<bar> * 1000000)) in
      (if v < 0 then ''-'' else []) @ show_nat (n div 1000000) @ ''.'' @ frac6 (n mod 1000000))"

text \<open>\<open>str(n)\<close> for a Python integer.\<close>

definition show_int :: "int \<Rightarrow> string" where
  "show_int i = (if i < 0 then ''-'' @ show_nat (nat (- i)) else show_nat (nat i))"

text \<open>\<open>case_structure.py\<close>, lines 108 and 109: the two refinement-box entries as written.\<close>

definition ref_min :: "bbox \<Rightarrow> string" where
  "ref_min s =
     ''        min ('' @ fmt6 (xmin s - M2) @ '' '' @ fmt6 (ymin s - M2) @ '' ''
       @ fmt6 (zmin s - M2) @ '');''"

definition ref_max :: "bbox \<Rightarrow> bbox \<Rightarrow> string" where
  "ref_max m s =
     ''        max ('' @ fmt6 (xmax m) @ '' '' @ fmt6 (ymax s + M2) @ '' ''
       @ fmt6 (zmax s + M2) @ '');''"

text \<open>\<open>case_structure.py\<close>, line 106: the mesh-placement point entry.\<close>

definition loc_str :: "bbox \<Rightarrow> bbox \<Rightarrow> string" where
  "loc_str m s =
     ''    locationInMesh ('' @ fmt6 (xmax s + (xmax m - xmax s) / 2) @ '' ''
       @ fmt6 (ymax s + (ymax m - ymax s) / 2) @ '' ''
       @ fmt6 (zmax s + (zmax m - zmax s) / 2) @ '');''"

section \<open>Text primitives\<close>

text \<open>
  Python strings are modelled as lists of characters.  The character classes below are
  those of \<open>str.isspace\<close> (also the regular-expression class \<open>\s\<close>) and of
  \<open>str.splitlines\<close> on ASCII code points; text outside ASCII is not modelled.
\<close>

definition is_space :: "char \<Rightarrow> bool" where
  "is_space c \<longleftrightarrow> c \<in> set [CHR 0x09, CHR 0x0A, CHR 0x0B, CHR 0x0C, CHR 0x0D,
                              CHR 0x1C, CHR 0x1D, CHR 0x1E, CHR 0x1F, CHR 0x20]"

definition is_linebreak :: "char \<Rightarrow> bool" where
  "is_linebreak c \<longleftrightarrow> c \<in> set [CHR 0x0A, CHR 0x0B, CHR 0x0C, CHR 0x0D,
                                  CHR 0x1C, CHR 0x1D, CHR 0x1E]"

definition is_digit :: "char \<Rightarrow> bool" where
  "is_digit c \<longleftrightarrow> c \<in> set ''0123456789''"

definition lstrip :: "string \<Rightarrow> string" where
  "lstrip s = dropWhile is_space s"

definition rstrip :: "string \<Rightarrow> string" where
  "rstrip s = rev (dropWhile is_space (rev s))"

text \<open>\<open>s.strip()\<close>.\<close>

definition strip :: "string \<Rightarrow> string" where
  "strip s = rstrip (lstrip s)"

text \<open>\<open>s.startswith(p)\<close>.\<close>

definition startswith :: "string \<Rightarrow> string \<Rightarrow> bool" where
  "startswith s p \<longleftrightarrow> prefix p s"

text \<open>
  \<open>s.splitlines()\<close>: the text is cut at every line break, \<open>\r\n\<close> counts as one
  break, and a break at the very end opens no further line.
\<close>

fun drop_break :: "string \<Rightarrow> string" where
  "drop_break [] = []"
| "drop_break (c # cs) =
     (if c = CHR 0x0D \<and> (case cs of [] \<Rightarrow> False | d # _ \<Rightarrow> d = CHR 0x0A) then tl cs else cs)"

function splitlines :: "string \<Rightarrow> string list" where
  "splitlines s =
     (if s = [] then []
      else takeWhile (\<lambda>c. \<not> is_linebreak c) s
             # splitlines (drop_break (dropWhile (\<lambda>c. \<not> is_linebreak c) s)))"
  by pat_completeness auto
termination
proof (relation "measure length", goal_cases)
  case 1
  show ?case by simp
next
  case (2 s)
  let ?r = "dropWhile (\<lambda>c. \<not> is_linebreak c) s"
  have shorter: "length (drop_break r) < length r" if "r \<noteq> []" for r
    using that by (cases r) (auto split: list.splits)
  show ?case
  proof (cases "?r = []")
    case True
    have "drop_break ?r = []" by (simp only: True drop_break.simps)
    with 2 show ?thesis by (simp del: dropWhile_eq_Nil_conv)
  next
    case False
    then have "length (drop_break ?r) < length ?r" by (rule shorter)
    moreover have "length ?r \<le> length s" by (rule length_dropWhile_le)
    ultimately show ?thesis by simp
  qed
qed

declare splitlines.simps [simp del]

text \<open>A file written line by line, each line followed by \<open>\n\<close>.\<close>

definition write_lines :: "string list \<Rightarrow> string" where
  "write_lines ls = concat (map (\<lambda>l. l @ [CHR 0x0A]) ls)"

text \<open>\<open>sep.join(ls)\<close>.\<close>

fun join :: "string \<Rightarrow> string list \<Rightarrow> string" where
  "join sep [] = []"
| "join sep [l] = l"
| "join sep (l # l' # ls) = l @ sep @ join sep (l' # ls)"

section \<open>The decomposition dictionary\<close>

text \<open>
  \<open>case_structure.py\<close>, lines 71 to 80.  A line whose stripped text starts with
  \<open>numberOfSubdomains\<close> is written as \<open>numberOfSubdomains {nSub};\<close>, every other
  line as it is; each is followed by \<open>\n\<close>.
\<close>

definition is_subdomain_line :: "string \<Rightarrow> bool" where
  "is_subdomain_line L \<longleftrightarrow> startswith (strip L) ''numberOfSubdomains''"

definition patch_line :: "int \<Rightarrow> string \<Rightarrow> string" where
  "patch_line nSub L =
     (if is_subdomain_line L then ''numberOfSubdomains '' @ show_int nSub @ '';'' else L)"

definition patch_decomposeParDict :: "int \<Rightarrow> string \<Rightarrow> string" where
  "patch_decomposeParDict nSub text = write_lines (map (patch_line nSub) (splitlines text))"

section \<open>The refinement dictionary\<close>

text \<open>
  \<open>case_structure.py\<close>, lines 111 to 136: the loop over the lines of the template,
  with its two flags \<open>inject\<close> and \<open>in_ref\<close>.  The result is the list \<open>out\<close>.
\<close>

fun snappy_loop :: "string \<Rightarrow> string \<Rightarrow> string \<Rightarrow> bool \<Rightarrow> bool \<Rightarrow> string list \<Rightarrow> string list" where
  "snappy_loop loc rmin rmax inject in_ref [] = []"
| "snappy_loop loc rmin rmax inject in_ref (L # Ls) =
     (let s = strip L in
      if s = ''castellatedMeshControls'' then L # snappy_loop loc rmin rmax True in_ref Ls
      else if inject \<and> s = ''{'' then L # loc # snappy_loop loc rmin rmax False in_ref Ls
      else if startswith s ''refinementBox'' then L # snappy_loop loc rmin rmax inject True Ls
      else if in_ref \<and> startswith s ''min ('' then rmin # snappy_loop loc rmin rmax inject in_ref Ls
      else if in_ref \<and> startswith s ''max ('' then rmax # snappy_loop loc rmin rmax inject False Ls
      else L # snappy_loop loc rmin rmax inject in_ref Ls)"

text \<open>
  Lines 106 to 136: the list \<open>out\<close> for the block bounds \<open>m\<close> read back from the
  block-mesh dictionary, the surface bounds \<open>s\<close> and the renamed template text.
\<close>

definition snappy_out :: "bbox \<Rightarrow> bbox \<Rightarrow> string \<Rightarrow> string list" where
  "snappy_out m s sdict =
     snappy_loop (loc_str m s) (ref_min s) (ref_max m s) False False (splitlines sdict)"

text \<open>Line 137: the text written.\<close>

definition snappy_inject :: "bbox \<Rightarrow> bbox \<Rightarrow> string \<Rightarrow> string" where
  "snappy_inject m s sdict = join [CHR 0x0A] (snappy_out m s sdict) @ [CHR 0x0A]"

section \<open>The block-mesh dictionary\<close>

text \<open>
  \<open>generate_blockMeshDict.main\<close>, lines 52 to 62: each pattern is
  \<open>^(\s*KEY\s+).+?;\<close>, tried with \<open>match\<close> at the start of a line.

  \<open>lazy_dot_semi\<close> is the tail \<open>.+?;\<close>: one character other than a newline, then as
  few more as possible up to a semicolon.  It returns the characters taken by \<open>.+?\<close>
  and the text after the semicolon.
\<close>

fun lazy_scan :: "string \<Rightarrow> string \<Rightarrow> (string \<times> string) option" where
  "lazy_scan acc [] = None"
| "lazy_scan acc (d # ds) =
     (if d = CHR '';'' then Some (acc, ds)
      else if d = CHR 0x0A then None
      else lazy_scan (acc @ [d]) ds)"

fun lazy_dot_semi :: "string \<Rightarrow> (string \<times> string) option" where
  "lazy_dot_semi [] = None"
| "lazy_dot_semi (c # cs) = (if c = CHR 0x0A then None else lazy_scan [c] cs)"

text \<open>
  \<open>\s+\<close> is greedy: it first takes the whole run \<open>ws\<close> of white space and gives
  characters back one at a time, down to one, until the tail matches.
\<close>

fun backtrack_ws :: "nat \<Rightarrow> string \<Rightarrow> string \<Rightarrow> (string \<times> string \<times> string) option" where
  "backtrack_ws 0 ws t = None"
| "backtrack_ws (Suc k) ws t =
     (case lazy_dot_semi (drop (Suc k) ws @ t) of
        Some (mid, rest) \<Rightarrow> Some (take (Suc k) ws, mid, rest)
      | None \<Rightarrow> backtrack_ws k ws t)"

text \<open>
  \<open>pat.match(line)\<close> for the key \<open>key\<close>: group 1, the text taken by \<open>.+?\<close>, and the
  text after the match.  The keys start with a letter, so the leading \<open>\s*\<close> can only
  take the whole run of white space in front of the key.
\<close>

definition match_key :: "string \<Rightarrow> string \<Rightarrow> (string \<times> string \<times> string) option" where
  "match_key key line =
     (let lead = takeWhile is_space line; r1 = dropWhile is_space line in
      if \<not> prefix key r1 then None
      else
        let r2 = drop (length key) r1;
            ws = takeWhile is_space r2;
            t = dropWhile is_space r2
        in case backtrack_ws (length ws) ws t of
             None \<Rightarrow> None
           | Some (w, mid, rest) \<Rightarrow> Some (lead @ key @ w, mid, rest))"

text \<open>
  Lines 82 to 87: the keys are tried in the order of the dictionary; the first pattern
  that matches rewrites the line to group 1, the value with six decimals and a
  semicolon, followed by the rest of the line.
\<close>

fun subst_line :: "(string \<times> real) list \<Rightarrow> string \<Rightarrow> string" where
  "subst_line [] line = line"
| "subst_line ((key, v) # kvs) line =
     (case match_key key line of
        Some (g1, mid, rest) \<Rightarrow> g1 @ fmt6 v @ '';'' @ rest
      | None \<Rightarrow> subst_line kvs line)"

text \<open>Lines 52 to 62: the keys of the pattern dictionary, in its order.\<close>

definition block_keys :: "string list" where
  "block_keys = [''xmin'', ''xmax'', ''ymin'', ''ymax'', ''zmin'', ''zmax'', ''dx'', ''dy'', ''dz'']"

text \<open>Lines 68 to 78: the values, in the key order of lines 52 to 62.\<close>

definition values_of :: "bbox \<Rightarrow> real \<Rightarrow> real \<Rightarrow> real \<Rightarrow> (string \<times> real) list" where
  "values_of d dx dy dz =
     [(''xmin'', xmin d), (''xmax'', xmax d), (''ymin'', ymin d), (''ymax'', ymax d),
      (''zmin'', zmin d), (''zmax'', zmax d), (''dx'', dx), (''dy'', dy), (''dz'', dz)]"

text \<open>
  Lines 31 to 92: from the surface bounds, the three cell factors and the template text
  to the text of the generated dictionary.
\<close>

definition generate_blockMeshDict :: "bbox \<Rightarrow> real \<Rightarrow> real \<Rightarrow> real \<Rightarrow> string \<Rightarrow> string" where
  "generate_blockMeshDict b dx dy dz template =
     join [CHR 0x0A] (map (subst_line (values_of (domain_box b) dx dy dz)) (splitlines template))
       @ [CHR 0x0A]"

section \<open>The pipeline controller\<close>

text \<open>
  \<open>run.py\<close>.  What the controller does to the outside world is recorded as a trace of
  events: removing and creating the case directory, starting an external process
  (the case-preparation script, or a shell command through \<open>run_and_log\<close>), removing
  the \<open>processor*\<close> directories, and touching the \<open>.foam\<close> marker.
\<close>

datatype event =
    Rmtree_case
  | Mkdir_case
  | Prepare_case
  | Proc string
  | Rm_processor_dirs
  | Touch_foam

datatype run_error =
    CalledProcessError event int
  | ValueError
  | EOFError

datatype outcome = Completed | No_stl | Failed run_error

text \<open>
  The environment of one run: the surface files found, whether the case directory
  exists, the exit status of the \<open>n\<close>-th external process started (counting from
  zero), the lines typed at the prompts, the text of the control dictionary of the
  template case if that file exists, and whether the marker file exists after meshing.
\<close>

record run_env =
  stl_files :: "string list"
  case_exists :: bool
  exit_of :: "nat \<Rightarrow> int"
  stdin :: "string list"
  controlDict :: "string option"
  foam_exists :: bool

fun is_proc :: "event \<Rightarrow> bool" where
  "is_proc Prepare_case = True"
| "is_proc (Proc cmd) = True"
| "is_proc e = False"

text \<open>
  Statements in sequence.  An external process is started, its exit status is that of
  the environment, and a non-zero status raises \<open>CalledProcessError\<close>
  (\<open>check=True\<close> at line 62, \<open>check_returncode\<close> at line 36), which ends the run.
\<close>

fun exec :: "(nat \<Rightarrow> int) \<Rightarrow> event list \<Rightarrow> event list \<Rightarrow> event list \<times> run_error option" where
  "exec ex [] tr = (tr, None)"
| "exec ex (a # as) tr =
     (if is_proc a then
        (let rc = ex (length (filter is_proc tr)) in
         if rc = 0 then exec ex as (tr @ [a])
         else (tr @ [a], Some (CalledProcessError a rc)))
      else exec ex as (tr @ [a]))"

text \<open>\<open>s.lower()\<close> on ASCII letters.\<close>

definition lower_char :: "char \<Rightarrow> char" where
  "lower_char c =
     (case map_of (zip ''ABCDEFGHIJKLMNOPQRSTUVWXYZ'' ''abcdefghijklmnopqrstuvwxyz'') c of
        Some d \<Rightarrow> d | None \<Rightarrow> c)"

definition lower :: "string \<Rightarrow> string" where
  "lower s = map lower_char s"

text \<open>
  \<open>int(s)\<close> for a string: an optional sign, then decimal digits, where single
  underscores may stand between digits; anything else raises \<open>ValueError\<close>.
\<close>

fun valid_body :: "string \<Rightarrow> bool" where
  "valid_body [] = False"
| "valid_body [c] = is_digit c"
| "valid_body (c # d # cs) =
     (is_digit c \<and> (if d = CHR ''_'' then valid_body cs else valid_body (d # cs)))"

definition digit_value :: "char \<Rightarrow> nat" where
  "digit_value c = length (takeWhile (\<lambda>d. d \<noteq> c) ''0123456789'')"

definition digits_value :: "string \<Rightarrow> nat" where
  "digits_value s = foldl (\<lambda>a c. 10 * a + digit_value c) 0 (filter is_digit s)"

definition py_int :: "string \<Rightarrow> int option" where
  "py_int s =
     (let t = strip s;
          neg = (t \<noteq> [] \<and> hd t = CHR ''-'');
          body = (if t \<noteq> [] \<and> (hd t = CHR ''-'' \<or> hd t = CHR ''+'') then tl t else t)
      in if valid_body body
         then Some (if neg then - int (digits_value body) else int (digits_value body))
         else None)"

text \<open>Line 73: \<open>int(input(...).strip() or 4)\<close>.\<close>

definition read_nproc :: "string \<Rightarrow> int option" where
  "read_nproc ans = (if strip ans = [] then Some 4 else py_int (strip ans))"

text \<open>
  Lines 96 to 103: the solver is \<open>simpleFoam\<close> unless a line of the control dictionary
  matches \<open>^\s*application\s+(\S+)\<close>; then it is group 1 of the first such line without
  its trailing semicolons.
\<close>

definition match_application :: "string \<Rightarrow> string option" where
  "match_application line =
     (let r1 = dropWhile is_space line in
      if \<not> prefix ''application'' r1 then None
      else
        let r2 = drop (length ''application'') r1;
            ws = takeWhile is_space r2;
            t = dropWhile is_space r2
        in if ws = [] \<or> t = [] then None
           else Some (takeWhile (\<lambda>c. \<not> is_space c) t))"

fun first_application :: "string list \<Rightarrow> string option" where
  "first_application [] = None"
| "first_application (l # ls) =
     (case match_application l of
        Some g \<Rightarrow> Some (rev (dropWhile (\<lambda>c. c = CHR '';'') (rev g)))
      | None \<Rightarrow> first_application ls)"

definition read_solver :: "string option \<Rightarrow> string" where
  "read_solver ctrl =
     (case ctrl of
        None \<Rightarrow> ''simpleFoam''
      | Some text \<Rightarrow>
          (case first_application (splitlines text) of
             None \<Rightarrow> ''simpleFoam'' | Some s \<Rightarrow> s))"

text \<open>Lines 72 to 84: the refinement stage, serial or parallel.\<close>

definition refine_stage :: "bool \<Rightarrow> int \<Rightarrow> event list" where
  "refine_stage runParallel nproc =
     (if runParallel then
        [Proc ''decomposePar'',
         Proc (''mpirun -np '' @ show_int nproc
                 @ '' snappyHexMesh -dict system/snappyHexMeshDict -parallel -overwrite''),
         Proc ''reconstructParMesh -constant'',
         Rm_processor_dirs]
      else [Proc ''snappyHexMesh -dict system/snappyHexMeshDict -overwrite''])"

text \<open>Lines 104 to 110: the solve stage, serial or parallel.\<close>

definition solve_stage :: "bool \<Rightarrow> int \<Rightarrow> string \<Rightarrow> event list" where
  "solve_stage runSol nproc solver =
     (if runSol then
        [Proc ''decomposePar'',
         Proc (''mpirun -np '' @ show_int nproc @ '' '' @ solver @ '' -parallel''),
         Proc ''reconstructPar'']
      else [Proc solver])"

text \<open>
  \<open>main\<close>, lines 42 to 112.  The prompts are read in the order of the source: the
  first after stage 2, the core count only when the first answer is yes, the last
  one before the solver; a prompt with no line left raises \<open>EOFError\<close>.
\<close>

definition is_yes :: "string \<Rightarrow> bool" where
  "is_yes ans \<longleftrightarrow> lower (strip ans) = ''y''"

definition run_solver :: "run_env \<Rightarrow> int \<Rightarrow> string list \<Rightarrow> event list \<Rightarrow> event list \<times> outcome" where
  "run_solver env nproc inp tr =
     (let tr3 = tr @ (if foam_exists env then [] else [Touch_foam]);
          solver = read_solver (controlDict env)
      in case inp of
           [] \<Rightarrow> (tr3, Failed EOFError)
         | a3 # _ \<Rightarrow>
             (case exec (exit_of env) (solve_stage (is_yes a3) nproc solver) tr3 of
                (tr4, Some e) \<Rightarrow> (tr4, Failed e)
              | (tr4, None) \<Rightarrow> (tr4, Completed)))"

definition run_refine :: "run_env \<Rightarrow> event list \<Rightarrow> event list \<times> outcome" where
  "run_refine env tr =
     (case stdin env of
        [] \<Rightarrow> (tr, Failed EOFError)
      | a1 # inp \<Rightarrow>
          if is_yes a1 then
            (case inp of
               [] \<Rightarrow> (tr, Failed EOFError)
             | a2 # inp' \<Rightarrow>
                 (case read_nproc a2 of
                    None \<Rightarrow> (tr, Failed ValueError)
                  | Some nproc \<Rightarrow>
                      (case exec (exit_of env) (refine_stage True nproc) tr of
                         (tr2, Some e) \<Rightarrow> (tr2, Failed e)
                       | (tr2, None) \<Rightarrow> run_solver env nproc inp' tr2)))
          else
            (case exec (exit_of env) (refine_stage False 1) tr of
               (tr2, Some e) \<Rightarrow> (tr2, Failed e)
             | (tr2, None) \<Rightarrow> run_solver env 1 inp tr2))"

definition main :: "run_env \<Rightarrow> event list \<times> outcome" where
  "main env =
     (if stl_files env = [] then ([], No_stl)
      else
        let tr0 = (if case_exists env then [Rmtree_case] else []) @ [Mkdir_case] in
        case exec (exit_of env)
               [Prepare_case, Proc ''blockMesh'', Proc ''surfaceFeatureExtract''] tr0 of
          (tr1, Some e) \<Rightarrow> (tr1, Failed e)
        | (tr1, None) \<Rightarrow> run_refine env tr1)"

text \<open>
  Every process in the trace exited with status zero; and: the trace ends with the
  process \<open>a\<close>, which exited with the non-zero status \<open>rc\<close>, after processes that all
  exited with zero.
\<close>

definition all_ok :: "(nat \<Rightarrow> int) \<Rightarrow> event list \<Rightarrow> bool" where
  "all_ok ex tr \<longleftrightarrow> (\<forall>i < length (filter is_proc tr). ex i = 0)"

definition stopped_at :: "(nat \<Rightarrow> int) \<Rightarrow> event list \<Rightarrow> event \<Rightarrow> int \<Rightarrow> bool" where
  "stopped_at ex tr a rc \<longleftrightarrow>
     (\<exists>pre. tr = pre @ [a] \<and> is_proc a \<and> all_ok ex pre
            \<and> rc = ex (length (filter is_proc pre)) \<and> rc \<noteq> 0)"

fun well_ordered :: "(nat \<Rightarrow> int) \<Rightarrow> event list \<times> outcome \<Rightarrow> bool" where
  "well_ordered ex (tr, Failed (CalledProcessError a rc)) = stopped_at ex tr a rc"
| "well_ordered ex (tr, out) = all_ok ex tr"

text \<open>A run in which the mesh is refined on one core and the solver is run in parallel.\<close>

definition serial_then_parallel :: run_env where
  "serial_then_parallel =
     \<lparr> stl_files = [''cylinder.stl''], case_exists = False, exit_of = (\<lambda>n. 0),
       stdin = [''n'', ''y''], controlDict = None, foam_exists = False \<rparr>"

text \<open>A run in which eight cores are chosen for the refinement and the solver is parallel too.\<close>

definition parallel_both :: run_env where
  "parallel_both =
     \<lparr> stl_files = [''cylinder.stl''], case_exists = True, exit_of = (\<lambda>n. 0),
       stdin = [''y'', ''8'', ''Y ''],
       controlDict = Some (''application     pimpleFoam;'' @ [CHR 0x0A]), foam_exists = True \<rparr>"

text \<open>A run in which feature extraction, the third process started, exits with status 1.\<close>

definition features_fail :: run_env where
  "features_fail =
     \<lparr> stl_files = [''cylinder.stl''], case_exists = True, exit_of = (\<lambda>n. if n = 2 then 1 else 0),
       stdin = [''y'', ''8'', ''y''], controlDict = None, foam_exists = False \<rparr>"

section \<open>Placeholder renaming\<close>

text \<open>
  The exceptions that can end the case-preparation script: a missing file or
  directory, \<open>.group\<close> on a failed search, \<open>float\<close> on a bad number, an error or an
  unknown group name in a replacement template of \<open>re.sub\<close>, and a failed
  subprocess.
\<close>

datatype prep_error =
    FileNotFoundError
  | AttributeError
  | FloatValueError
  | ReError
  | IndexError
  | SubprocessError

text \<open>The class \<open>\w\<close> on ASCII: letters, digits and the underscore.\<close>

definition is_word :: "char \<Rightarrow> bool" where
  "is_word c \<longleftrightarrow>
     c \<in> set ''abcdefghijklmnopqrstuvwxyzABCDEFGHIJKLMNOPQRSTUVWXYZ0123456789_''"

text \<open>
  The scan of \<open>re.sub(r"\bPAT\b", repl, text)\<close> for a pattern \<open>PAT\<close> of word
  characters, with \<open>rep\<close> the expanded replacement.  The text is scanned from the left; the flag says
  whether the character before the current position is a word character.  The pattern
  matches where no word character stands before it, the text continues with the
  pattern and no word character follows; the scan goes on behind the match.
\<close>

fun sub_word :: "string \<Rightarrow> string \<Rightarrow> bool \<Rightarrow> string \<Rightarrow> string" where
  "sub_word pat rep prev [] = []"
| "sub_word pat rep prev (c # cs) =
     (if \<not> prev \<and> prefix pat (c # cs)
          \<and> (case drop (length pat) (c # cs) of [] \<Rightarrow> True | d # _ \<Rightarrow> \<not> is_word d)
      then rep @ sub_word pat rep True (drop (length pat - 1) cs)
      else c # sub_word pat rep (is_word c) cs)"

definition re_sub_word :: "string \<Rightarrow> string \<Rightarrow> string \<Rightarrow> string" where
  "re_sub_word pat rep text = sub_word pat rep False text"

text \<open>
  The replacement of \<open>re.sub\<close> is a template: a backslash starts an escape.  The
  patterns here have no groups, so \<open>\g<0>\<close> (the whole match, with the group number
  read by \<open>int\<close>) is the only group reference that is not an error; \<open>\0\<close> with up to
  two more octal digits and three octal digits up to \<open>377\<close> give the character of that
  code; \<open>\a \b \f \n \r \t \v \\\<close> give their control character or the backslash; a
  backslash before another ASCII letter, before a digit that starts no octal triple,
  or at the end is an error; before any other character it is kept.
  \<open>escape_step\<close> reads one escape behind a backslash and returns its expansion and
  the number of characters it takes.
\<close>

definition is_oct :: "char \<Rightarrow> bool" where
  "is_oct c \<longleftrightarrow> c \<in> set ''01234567''"

definition is_letter :: "char \<Rightarrow> bool" where
  "is_letter c \<longleftrightarrow> c \<in> set ''abcdefghijklmnopqrstuvwxyzABCDEFGHIJKLMNOPQRSTUVWXYZ''"

definition is_identifier :: "string \<Rightarrow> bool" where
  "is_identifier name \<longleftrightarrow> name \<noteq> [] \<and> \<not> is_digit (hd name) \<and> (\<forall>c \<in> set name. is_word c)"

definition oct_value :: "string \<Rightarrow> nat" where
  "oct_value ds = foldl (\<lambda>a c. 8 * a + digit_value c) 0 ds"

definition escape_char :: "char \<Rightarrow> char option" where
  "escape_char e =
     map_of [(CHR ''a'', CHR 0x07), (CHR ''b'', CHR 0x08), (CHR ''f'', CHR 0x0C),
             (CHR ''n'', CHR 0x0A), (CHR ''r'', CHR 0x0D), (CHR ''t'', CHR 0x09),
             (CHR ''v'', CHR 0x0B), (CHR 0x5C, CHR 0x5C)] e"

definition escape_step :: "string \<Rightarrow> string \<Rightarrow> prep_error + (string \<times> nat)" where
  "escape_step m cs =
     (case cs of
        [] \<Rightarrow> Inl ReError
      | e # rest \<Rightarrow>
          if e = CHR ''g'' then
            (if rest = [] \<or> hd rest \<noteq> CHR ''<'' \<or> CHR ''>'' \<notin> set (tl rest) then Inl ReError
             else
               let name = takeWhile (\<lambda>c. c \<noteq> CHR ''>'') (tl rest) in
               if name = [] then Inl ReError
               else if is_identifier name then Inl IndexError
               else
                 (case py_int name of
                    None \<Rightarrow> Inl ReError
                  | Some i \<Rightarrow> if i = 0 then Inr (m, length name + 3) else Inl ReError))
          else if e = CHR ''0'' then
            (let ds = takeWhile is_oct (take 2 rest) in
             Inr ([char_of (oct_value ds)], 1 + length ds))
          else if is_digit e then
            (case rest of
               d1 # d2 # _ \<Rightarrow>
                 if is_oct e \<and> is_oct d1 \<and> is_oct d2 then
                   (let v = oct_value [e, d1, d2] in
                    if 255 < v then Inl ReError else Inr ([char_of v], 3))
                 else Inl ReError
             | _ \<Rightarrow> Inl ReError)
          else
            (case escape_char e of
               Some x \<Rightarrow> Inr ([x], 1)
             | None \<Rightarrow> if is_letter e then Inl ReError else Inr ([CHR 0x5C, e], 1)))"

text \<open>The template \<open>t\<close> expanded for the match \<open>m\<close>; the leftmost error is the one raised.\<close>

fun expand :: "string \<Rightarrow> string \<Rightarrow> prep_error + string" where
  "expand m [] = Inr []"
| "expand m (c # cs) =
     (if c \<noteq> CHR 0x5C then
        (case expand m cs of Inl e \<Rightarrow> Inl e | Inr r \<Rightarrow> Inr (c # r))
      else
        (case escape_step m cs of
           Inl e \<Rightarrow> Inl e
         | Inr (out, n) \<Rightarrow>
             (case expand m (drop n cs) of Inl e \<Rightarrow> Inl e | Inr r \<Rightarrow> Inr (out @ r))))"

text \<open>
  \<open>re.sub(r"\bPAT\b", repl, text)\<close>: the template is expanded first, also when the
  text has no match.
\<close>

definition re_sub :: "string \<Rightarrow> string \<Rightarrow> string \<Rightarrow> prep_error + string" where
  "re_sub pat repl text =
     (case expand pat repl of
        Inl e \<Rightarrow> Inl e
      | Inr rep \<Rightarrow> Inr (re_sub_word pat rep text))"

text \<open>
  \<open>case_structure.py\<close>, lines 65 to 68: the three substitutions applied to a field
  file, in the order of the source.
\<close>

definition rename_fields :: "string \<Rightarrow> string \<Rightarrow> prep_error + string" where
  "rename_fields stl_name text =
     (case re_sub ''placeholder'' stl_name text of
        Inl e \<Rightarrow> Inl e
      | Inr text1 \<Rightarrow>
          (case re_sub ''cylinderGroup'' (stl_name @ ''Group'') text1 of
             Inl e \<Rightarrow> Inl e
           | Inr text2 \<Rightarrow> re_sub ''cylinder'' stl_name text2))"

text \<open>
  \<open>text.replace(old, new)\<close> for a non-empty \<open>old\<close>: every occurrence, from the left,
  without overlap.
\<close>

fun str_replace :: "string \<Rightarrow> string \<Rightarrow> string \<Rightarrow> string" where
  "str_replace old new [] = []"
| "str_replace old new (c # cs) =
     (if prefix old (c # cs) then new @ str_replace old new (drop (length old - 1) cs)
      else c # str_replace old new cs)"

text \<open>
  \<open>os.path.splitext(fname)[0]\<close> for a file name without directory: the name up to
  its last dot, unless only dots stand before that dot.
\<close>

definition splitext_root :: "string \<Rightarrow> string" where
  "splitext_root fname =
     (if CHR ''.'' \<notin> set fname then fname
      else
        let stem = rev (tl (dropWhile (\<lambda>c. c \<noteq> CHR ''.'') (rev fname))) in
        if \<forall>c \<in> set stem. c = CHR ''.'' then fname else stem)"

text \<open>\<open>case_structure.py\<close>, lines 100 and 101: the renaming of the refinement template.\<close>

definition snappy_rename :: "string \<Rightarrow> string \<Rightarrow> string" where
  "snappy_rename fname template =
     str_replace ''cylinder.eMesh'' (str_replace ''.stl'' ''.eMesh'' fname)
       (str_replace ''cylinder.stl'' fname
          (str_replace ''placeholder'' (splitext_root fname) template))"

text \<open>
  The words of a text: its maximal runs of word characters, and between them its
  maximal runs of other characters.
\<close>

fun tokens :: "string \<Rightarrow> string list" where
  "tokens [] = []"
| "tokens (c # cs) =
     (case tokens cs of
        [] \<Rightarrow> [[c]]
      | t # ts \<Rightarrow> if is_word c = is_word (hd t) then (c # t) # ts else [c] # t # ts)"

text \<open>
  A list of non-empty runs, each of word characters only or of other characters only,
  in which the two kinds alternate.
\<close>

definition homog :: "string \<Rightarrow> bool" where
  "homog t \<longleftrightarrow> t \<noteq> [] \<and> ((\<forall>c \<in> set t. is_word c) \<or> (\<forall>c \<in> set t. \<not> is_word c))"

fun alternating :: "string list \<Rightarrow> bool" where
  "alternating [] = True"
| "alternating [t] = homog t"
| "alternating (t # u # ts) =
     (homog t \<and> is_word (hd t) \<noteq> is_word (hd u) \<and> alternating (u # ts))"

text \<open>What the renaming is meant to do to one word.\<close>

definition rename_token :: "string \<Rightarrow> string \<Rightarrow> string" where
  "rename_token stl_name t =
     (if t = ''placeholder'' \<or> t = ''cylinder'' then stl_name
      else if t = ''cylinderGroup'' then stl_name @ ''Group''
      else t)"

section \<open>Reading the block bounds back\<close>

text \<open>
  \<open>float(s)\<close> for a string of the characters \<open>-\<close>, \<open>.\<close> and digits, the only ones
  the groups of \<open>read_block_bounds\<close> can hold: an optional minus sign, then digits
  with at most one point and at least one digit; anything else raises \<open>ValueError\<close>.
\<close>

definition py_float :: "string \<Rightarrow> real option" where
  "py_float s =
     (let neg = (s \<noteq> [] \<and> hd s = CHR ''-'');
          body = (if neg then tl s else s);
          ip = takeWhile is_digit body;
          r = dropWhile is_digit body;
          fp = (if r \<noteq> [] \<and> hd r = CHR ''.'' then tl r else r);
          v = real (digits_value ip) + real (digits_value fp) / 10 ^ length fp
      in if (r = [] \<or> hd r = CHR ''.'') \<and> (\<forall>c \<in> set fp. is_digit c) \<and> (ip \<noteq> [] \<or> fp \<noteq> [])
         then Some (if neg then - v else v)
         else None)"

text \<open>The class \<open>[\-\d\.]\<close>.\<close>

definition is_numch :: "char \<Rightarrow> bool" where
  "is_numch c \<longleftrightarrow> c = CHR ''-'' \<or> c = CHR ''.'' \<or> is_digit c"

text \<open>
  \<open>KEY\s+([\-\d\.]+);\<close> at the start of a text: the group and the text behind the
  semicolon.  White space and the characters of the group are taken greedily; giving
  any of them back cannot help, since neither class holds the character that must
  follow.
\<close>

definition key_part :: "string \<Rightarrow> string \<Rightarrow> (string \<times> string) option" where
  "key_part key s =
     (if \<not> prefix key s then None
      else
        let r = drop (length key) s;
            ws = takeWhile is_space r;
            t = dropWhile is_space r;
            num = takeWhile is_numch t;
            t' = dropWhile is_numch t
        in if ws \<noteq> [] \<and> num \<noteq> [] \<and> t' \<noteq> [] \<and> hd t' = CHR '';''
           then Some (num, tl t') else None)"

text \<open>The leftmost place where the part matches, and the rightmost one.\<close>

fun first_part :: "string \<Rightarrow> string \<Rightarrow> (string \<times> string) option" where
  "first_part key [] = None"
| "first_part key (c # cs) =
     (case key_part key (c # cs) of
        Some r \<Rightarrow> Some r
      | None \<Rightarrow> first_part key cs)"

fun last_part :: "string \<Rightarrow> string \<Rightarrow> (string \<times> string) option" where
  "last_part key [] = None"
| "last_part key (c # cs) =
     (case last_part key cs of
        Some r \<Rightarrow> Some r
      | None \<Rightarrow> key_part key (c # cs))"

text \<open>
  \<open>re.search(r"KMIN\s+([\-\d\.]+);.*KMAX\s+([\-\d\.]+);", data, re.S)\<close>: the search
  stops at the leftmost \<open>KMIN\<close> part that has a \<open>KMAX\<close> part somewhere behind it, and
  the greedy \<open>.*\<close> makes that the last one in the text.  A \<open>KMAX\<close> part behind a later
  \<open>KMIN\<close> part also lies behind the first, so the leftmost \<open>KMIN\<close> part decides.
\<close>

definition search_pair :: "string \<Rightarrow> string \<Rightarrow> string \<Rightarrow> (string \<times> string) option" where
  "search_pair kmin kmax data =
     (case first_part kmin data of
        None \<Rightarrow> None
      | Some (g1, rest) \<Rightarrow>
          (case last_part kmax rest of
             None \<Rightarrow> None
           | Some (g2, _) \<Rightarrow> Some (g1, g2)))"

text \<open>
  One pair of the tuple of line 48: \<open>.group\<close> on a failed search raises
  \<open>AttributeError\<close>, \<open>float\<close> on a bad group raises \<open>ValueError\<close>.
\<close>

definition read_pair :: "string \<Rightarrow> string \<Rightarrow> string \<Rightarrow> prep_error + real \<times> real" where
  "read_pair kmin kmax data =
     (case search_pair kmin kmax data of
        None \<Rightarrow> Inl AttributeError
      | Some (g1, g2) \<Rightarrow>
          (case py_float g1 of
             None \<Rightarrow> Inl FloatValueError
           | Some lo \<Rightarrow>
               (case py_float g2 of
                  None \<Rightarrow> Inl FloatValueError
                | Some hi \<Rightarrow> Inr (lo, hi))))"

text \<open>\<open>case_structure.py\<close>, lines 43 to 50, the pairs evaluated in the order \<open>x\<close>, \<open>y\<close>, \<open>z\<close>.\<close>

definition read_block_bounds :: "string \<Rightarrow> prep_error + bbox" where
  "read_block_bounds data =
     (case read_pair ''xmin'' ''xmax'' data of
        Inl e \<Rightarrow> Inl e
      | Inr (x1, x2) \<Rightarrow>
          (case read_pair ''ymin'' ''ymax'' data of
             Inl e \<Rightarrow> Inl e
           | Inr (y1, y2) \<Rightarrow>
               (case read_pair ''zmin'' ''zmax'' data of
                  Inl e \<Rightarrow> Inl e
                | Inr (z1, z2) \<Rightarrow>
                    Inr \<lparr> xmin = x1, xmax = x2, ymin = y1, ymax = y2, zmin = z1, zmax = z2 \<rparr>)))"

text \<open>
  \<open>case_structure.py\<close>, lines 99 to 137: the refinement dictionary from the text of
  the generated block-mesh dictionary, the surface bounds, the surface file name and
  the refinement template.
\<close>

definition snappy_dict :: "string \<Rightarrow> bbox \<Rightarrow> string \<Rightarrow> string \<Rightarrow> prep_error + string" where
  "snappy_dict bmd s fname template =
     (case read_block_bounds bmd of
        Inl e \<Rightarrow> Inl e
      | Inr m \<Rightarrow> Inr (snappy_inject m s (snappy_rename fname template)))"

text \<open>A block-mesh template with the six bound keys.\<close>

definition bounds_template :: string where
  "bounds_template =
     ''xmin 0;'' @ [CHR 0x0A] @ ''xmax 0;'' @ [CHR 0x0A] @
     ''ymin 0;'' @ [CHR 0x0A] @ ''ymax 0;'' @ [CHR 0x0A] @
     ''zmin 0;'' @ [CHR 0x0A] @ ''zmax 0;'' @ [CHR 0x0A]"

section \<open>Results on the domain geometry\<close>

lemma char_length_unit_cube: "char_length unit_cube = 1"
  by (simp add: char_length_def unit_cube_def)

text \<open>
  C1.  The characteristic length is the largest of the three extents; the domain box
  is the surface box moved out by \<open>3 D\<close> towards \<open>-x\<close>, by \<open>15 D\<close> towards \<open>+x\<close>
  and by \<open>3 D\<close> on both sides in \<open>y\<close> and \<open>z\<close>; for the unit cube it is
  \<open>(-3, 16, -3, 4, -3, 4)\<close>.
\<close>

theorem domain_box_extents:
  "char_length b = Max {xmax b - xmin b, ymax b - ymin b, zmax b - zmin b}
   \<and> xmin (domain_box b) = xmin b - 3 * char_length b
   \<and> xmax (domain_box b) = xmax b + 15 * char_length b
   \<and> ymin (domain_box b) = ymin b - 3 * char_length b
   \<and> ymax (domain_box b) = ymax b + 3 * char_length b
   \<and> zmin (domain_box b) = zmin b - 3 * char_length b
   \<and> zmax (domain_box b) = zmax b + 3 * char_length b
   \<and> domain_box unit_cube
       = \<lparr> xmin = -3, xmax = 16, ymin = -3, ymax = 4, zmin = -3, zmax = 4 \<rparr>"
proof -
  have "char_length b = Max {xmax b - xmin b, ymax b - ymin b, zmax b - zmin b}"
    by (simp add: char_length_def max.commute max.left_commute)
  moreover have "domain_box unit_cube
       = \<lparr> xmin = -3, xmax = 16, ymin = -3, ymax = 4, zmin = -3, zmax = 4 \<rparr>"
    by (simp add: domain_box_def char_length_unit_cube) (simp add: unit_cube_def)
  ultimately show ?thesis
    by (simp add: domain_box_def Let_def)
qed

lemma char_length_point_box: "char_length point_box = 0"
  by (simp add: char_length_def point_box_def)

lemma char_length_half_cube: "char_length half_cube = 1/2"
  by (simp add: char_length_def half_cube_def)

text \<open>
  C2, as stated, fails.  For a surface that is a single point (\<open>D = 0\<close>) the domain
  box is the surface box itself, so it does not strictly contain it; and for a cube of
  side \<open>1/2\<close> the refinement box reaches down to \<open>-2\<close> while the domain box stops at
  \<open>-3/2\<close>.
\<close>

theorem domain_box_containment_counterexample:
  "\<not> strictly_contains (domain_box point_box) point_box
   \<and> \<not> contained_in (refinement_region (domain_box half_cube) half_cube) (domain_box half_cube)"
proof -
  have "domain_box point_box = point_box"
    by (simp add: domain_box_def char_length_point_box)
  then have a: "\<not> strictly_contains (domain_box point_box) point_box"
    by (simp add: strictly_contains_def)
  have "xmin (refinement_region (domain_box half_cube) half_cube) = -2"
    by (simp add: refinement_region_def M2_def half_cube_def)
  moreover have "xmin (domain_box half_cube) = -3/2"
    by (simp add: domain_box_def char_length_half_cube) (simp add: half_cube_def)
  ultimately have b: "\<not> contained_in (refinement_region (domain_box half_cube) half_cube)
      (domain_box half_cube)"
    by (simp add: contained_in_def)
  from a b show ?thesis ..
qed

text \<open>
  C2, amended.  The domain box strictly contains the surface box on every axis exactly
  when \<open>D > 0\<close>; when \<open>D = 0\<close> it is the surface box.  The refinement box built from
  the surface box and the block bounds \<open>m\<close> read back from the generated dictionary
  lies inside the domain box exactly when \<open>3 D\<close> is at least the fixed margin \<open>2\<close> and
  the downstream bound read back does not exceed that of the domain box.
\<close>

theorem domain_box_containment:
  "(strictly_contains (domain_box b) b \<longleftrightarrow> 0 < char_length b)
   \<and> (char_length b = 0 \<longrightarrow> domain_box b = b)
   \<and> (contained_in (refinement_region m b) (domain_box b)
        \<longleftrightarrow> 2 \<le> 3 * char_length b \<and> xmax m \<le> xmax (domain_box b))"
proof (intro conjI impI)
  show "strictly_contains (domain_box b) b \<longleftrightarrow> 0 < char_length b"
    by (auto simp add: strictly_contains_def domain_box_def Let_def)
  show "domain_box b = b" if "char_length b = 0"
    using that by (simp add: domain_box_def)
  show "contained_in (refinement_region m b) (domain_box b)
        \<longleftrightarrow> 2 \<le> 3 * char_length b \<and> xmax m \<le> xmax (domain_box b)"
    by (auto simp add: contained_in_def refinement_region_def domain_box_def Let_def M2_def)
qed

text \<open>
  C3.  The lower corner of the refinement box is the surface minimum minus the fixed
  margin \<open>M2 = 2\<close> on all three axes; the upper corner is the downstream \<open>x\<close> bound of
  the domain box in \<open>x\<close> and the surface maximum plus the same margin in \<open>y\<close> and
  \<open>z\<close>.  These are the numbers the two dictionary entries print.
\<close>

theorem refinement_region_corners:
  "M2 = 2
   \<and> xmin (refinement_region m s) = xmin s - M2
   \<and> ymin (refinement_region m s) = ymin s - M2
   \<and> zmin (refinement_region m s) = zmin s - M2
   \<and> xmax (refinement_region m s) = xmax m
   \<and> ymax (refinement_region m s) = ymax s + M2
   \<and> zmax (refinement_region m s) = zmax s + M2
   \<and> ref_min s = ''        min ('' @ fmt6 (xmin (refinement_region m s)) @ '' ''
        @ fmt6 (ymin (refinement_region m s)) @ '' ''
        @ fmt6 (zmin (refinement_region m s)) @ '');''
   \<and> ref_max m s = ''        max ('' @ fmt6 (xmax (refinement_region m s)) @ '' ''
        @ fmt6 (ymax (refinement_region m s)) @ '' ''
        @ fmt6 (zmax (refinement_region m s)) @ '');''
   \<and> xmax (refinement_region (domain_box s) s) = xmax s + 15 * char_length s"
  by (simp add: refinement_region_def ref_min_def ref_max_def M2_def domain_box_def Let_def)

section \<open>Facts about the text primitives\<close>

lemma splitlines_Nil: "splitlines [] = []"
  by (simp add: splitlines.simps)

lemma splitlines_Cons:
  "s \<noteq> [] \<Longrightarrow> splitlines s =
     takeWhile (\<lambda>c. \<not> is_linebreak c) s
       # splitlines (drop_break (dropWhile (\<lambda>c. \<not> is_linebreak c) s))"
  by (subst splitlines.simps) simp

lemma splitlines_line:
  assumes "\<forall>c \<in> set l. \<not> is_linebreak c"
  shows "splitlines (l @ CHR 0x0A # rest) = l # splitlines rest"
proof -
  have lb: "is_linebreak (CHR 0x0A)" by (simp add: is_linebreak_def)
  have t: "takeWhile (\<lambda>c. \<not> is_linebreak c) (l @ CHR 0x0A # rest) = l"
    using assms lb by (simp add: takeWhile_append2 takeWhile_eq_all_conv[THEN iffD2])
  have d: "dropWhile (\<lambda>c. \<not> is_linebreak c) (l @ CHR 0x0A # rest) = CHR 0x0A # rest"
    using assms lb by (simp add: dropWhile_append2)
  show ?thesis
    by (subst splitlines.simps) (simp add: t d)
qed

lemma splitlines_write_lines:
  "\<forall>l \<in> set ls. \<forall>c \<in> set l. \<not> is_linebreak c \<Longrightarrow> splitlines (write_lines ls) = ls"
proof (induction ls)
  case Nil
  show ?case by (simp add: write_lines_def splitlines_Nil)
next
  case (Cons l ls)
  then have "splitlines (l @ CHR 0x0A # write_lines ls) = l # splitlines (write_lines ls)"
    by (intro splitlines_line) simp
  with Cons show ?case by (simp add: write_lines_def)
qed

lemma splitlines_no_break: "l \<in> set (splitlines s) \<Longrightarrow> c \<in> set l \<Longrightarrow> \<not> is_linebreak c"
proof (induction s arbitrary: l rule: splitlines.induct)
  case (1 s)
  show ?case
  proof (cases "s = []")
    case True
    with 1(2) show ?thesis by (simp add: splitlines_Nil)
  next
    case False
    from 1(2) False have "l = takeWhile (\<lambda>c. \<not> is_linebreak c) s
        \<or> l \<in> set (splitlines (drop_break (dropWhile (\<lambda>c. \<not> is_linebreak c) s)))"
      by (subst (asm) splitlines.simps) simp
    then show ?thesis
    proof
      assume "l = takeWhile (\<lambda>c. \<not> is_linebreak c) s"
      with 1(3) show ?thesis by (auto dest: set_takeWhileD)
    next
      assume "l \<in> set (splitlines (drop_break (dropWhile (\<lambda>c. \<not> is_linebreak c) s)))"
      with 1(1)[OF False] 1(3) show ?thesis by blast
    qed
  qed
qed

lemma join_write_lines: "ls \<noteq> [] \<Longrightarrow> join [CHR 0x0A] ls @ [CHR 0x0A] = write_lines ls"
  by (induction "[CHR 0x0A]" ls rule: join.induct) (simp_all add: write_lines_def)

lemma show_nat_small: "n < 10 \<Longrightarrow> show_nat n = [digit_char n]"
  by (simp add: show_nat.simps)

lemma show_nat_large: "10 \<le> n \<Longrightarrow> show_nat n = show_nat (n div 10) @ [digit_char (n mod 10)]"
  by (subst show_nat.simps) simp

lemma digit_char_digit: "is_digit (digit_char d)"
  unfolding digit_char_def is_digit_def by (rule nth_mem) simp

lemma show_nat_digits: "c \<in> set (show_nat n) \<Longrightarrow> is_digit c"
proof (induction n rule: show_nat.induct)
  case (1 n)
  show ?case
  proof (cases "n < 10")
    case True
    with 1(2) show ?thesis by (simp add: show_nat_small digit_char_digit)
  next
    case False
    with 1 show ?thesis by (auto simp add: show_nat_large digit_char_digit)
  qed
qed

lemma show_nat_nonempty: "show_nat n \<noteq> []"
  by (subst show_nat.simps) simp

lemma show_int_chars: "c \<in> set (show_int i) \<Longrightarrow> c = CHR ''-'' \<or> is_digit c"
  by (cases "i < 0") (auto simp add: show_int_def dest: show_nat_digits)

lemma is_digit_no_break: "is_digit c \<Longrightarrow> \<not> is_linebreak c"
  by (auto simp add: is_digit_def is_linebreak_def)

lemma is_digit_no_space: "is_digit c \<Longrightarrow> \<not> is_space c"
  by (auto simp add: is_digit_def is_space_def)

lemma show_int_4: "show_int 4 = ''4''"
  by (simp add: show_int_def show_nat_small digit_char_def)

lemmas text_eval = splitlines_Nil splitlines_Cons is_linebreak_def is_space_def strip_def
  lstrip_def rstrip_def startswith_def write_lines_def

section \<open>Results on the decomposition dictionary\<close>

lemma subdomain_entry_no_break:
  assumes "c \<in> set (''numberOfSubdomains '' @ show_int n @ '';'')"
  shows "\<not> is_linebreak c"
proof -
  from assms have "c \<in> set ''numberOfSubdomains '' \<or> c \<in> set (show_int n) \<or> c = CHR '';''"
    by auto
  then show ?thesis
  proof (elim disjE)
    assume "c \<in> set ''numberOfSubdomains ''"
    then show ?thesis by (auto simp add: is_linebreak_def)
  next
    assume "c \<in> set (show_int n)"
    then have "c = CHR ''-'' \<or> is_digit c" by (rule show_int_chars)
    then show ?thesis using is_digit_no_break by (auto simp add: is_linebreak_def)
  next
    assume "c = CHR '';''"
    then show ?thesis by (simp add: is_linebreak_def)
  qed
qed

lemma is_subdomain_line_entry: "is_subdomain_line (''numberOfSubdomains '' @ show_int n @ '';'')"
  by (simp add: is_subdomain_line_def strip_def lstrip_def rstrip_def is_space_def startswith_def)

lemma is_subdomain_line_patch: "is_subdomain_line (patch_line n L) = is_subdomain_line L"
  using is_subdomain_line_entry [of n] by (simp add: patch_line_def)

lemma splitlines_patch:
  "splitlines (patch_decomposeParDict n text) = map (patch_line n) (splitlines text)"
  unfolding patch_decomposeParDict_def
proof (rule splitlines_write_lines, intro ballI)
  fix l c assume l: "l \<in> set (map (patch_line n) (splitlines text))" and c: "c \<in> set l"
  from l obtain L where L: "L \<in> set (splitlines text)" and lL: "l = patch_line n L" by auto
  show "\<not> is_linebreak c"
  proof (cases "is_subdomain_line L")
    case True
    with lL c show ?thesis using subdomain_entry_no_break [of c n] by (simp add: patch_line_def)
  next
    case False
    with lL c L show ?thesis by (simp add: patch_line_def splitlines_no_break)
  qed
qed

text \<open>
  C6, as stated, fails: the number of lines carrying the key is not made one, it is
  kept.  A template without the key gives a file without it, and a template with two
  such lines gives a file with two.
\<close>

theorem patch_decomposeParDict_counterexample:
  "filter is_subdomain_line
     (splitlines (patch_decomposeParDict 4 (''method scotch;'' @ [CHR 0x0A]))) = []
   \<and> splitlines (patch_decomposeParDict 4
        (''numberOfSubdomains 2;'' @ [CHR 0x0A] @ ''numberOfSubdomains 8;'' @ [CHR 0x0A]))
     = [''numberOfSubdomains 4;'', ''numberOfSubdomains 4;'']"
  by (simp add: splitlines_patch patch_line_def is_subdomain_line_def text_eval show_int_4)

text \<open>
  C6, amended.  The lines of the generated file are the lines of the template, one for
  one: a line whose stripped text starts with \<open>numberOfSubdomains\<close> becomes
  \<open>numberOfSubdomains n;\<close>, every other line is unchanged, and the file has as many
  lines with the key as the template has.
\<close>

theorem patch_decomposeParDict_lines:
  "splitlines (patch_decomposeParDict n text)
     = map (\<lambda>L. if is_subdomain_line L then ''numberOfSubdomains '' @ show_int n @ '';'' else L)
         (splitlines text)
   \<and> length (filter is_subdomain_line (splitlines (patch_decomposeParDict n text)))
     = length (filter is_subdomain_line (splitlines text))"
proof -
  have "filter is_subdomain_line (map (patch_line n) (splitlines text))
      = map (patch_line n) (filter is_subdomain_line (splitlines text))"
    by (simp add: filter_map o_def is_subdomain_line_patch)
  then show ?thesis
    by (simp add: splitlines_patch patch_line_def [abs_def])
qed

theorem patch_decomposeParDict_lines_witness:
  "splitlines (patch_decomposeParDict 4
      (''  numberOfSubdomains 2; // n'' @ [CHR 0x0D, CHR 0x0A] @ ''method scotch;''))
     = [''numberOfSubdomains 4;'', ''method scotch;'']
   \<and> length (filter is_subdomain_line (splitlines (patch_decomposeParDict 4
      (''  numberOfSubdomains 2; // n'' @ [CHR 0x0D, CHR 0x0A] @ ''method scotch;'')))) = 1"
  using patch_decomposeParDict_lines
    [of 4 "''  numberOfSubdomains 2; // n'' @ [CHR 0x0D, CHR 0x0A] @ ''method scotch;''"]
  by (simp add: is_subdomain_line_def text_eval show_int_4)

section \<open>Results on missing template structure\<close>

lemma snappy_loop_unchanged:
  assumes "(\<not> inject \<and> (\<forall>L \<in> set ls. strip L \<noteq> ''castellatedMeshControls''))
           \<or> (\<forall>L \<in> set ls. strip L \<noteq> ''{'')"
    and "(\<not> in_ref \<and> (\<forall>L \<in> set ls. \<not> startswith (strip L) ''refinementBox''))
           \<or> (\<forall>L \<in> set ls. \<not> startswith (strip L) ''min (''
                 \<and> \<not> startswith (strip L) ''max ('')"
  shows "snappy_loop loc rmin rmax inject in_ref ls = ls"
  using assms
proof (induction ls arbitrary: inject in_ref)
  case Nil
  show ?case by simp
next
  case (Cons L ls)
  show ?case
  proof (cases "strip L = ''castellatedMeshControls''")
    case True
    with Cons.prems(1) have "\<forall>L \<in> set ls. strip L \<noteq> ''{''" by auto
    moreover from Cons.prems(2) have "(\<not> in_ref \<and> (\<forall>L \<in> set ls. \<not> startswith (strip L) ''refinementBox''))
           \<or> (\<forall>L \<in> set ls. \<not> startswith (strip L) ''min (''
                 \<and> \<not> startswith (strip L) ''max ('')" by auto
    ultimately have "snappy_loop loc rmin rmax True in_ref ls = ls"
      by (intro Cons.IH) auto
    with True show ?thesis by simp
  next
    case nohead: False
    from Cons.prems(1) have brace: "(inject \<and> strip L = ''{'') = False" by auto
    from Cons.prems(1) have p1: "(\<not> inject \<and> (\<forall>L \<in> set ls. strip L \<noteq> ''castellatedMeshControls''))
           \<or> (\<forall>L \<in> set ls. strip L \<noteq> ''{'')" by auto
    show ?thesis
    proof (cases "startswith (strip L) ''refinementBox''")
      case True
      with Cons.prems(2) have "\<forall>L \<in> set ls. \<not> startswith (strip L) ''min (''
                 \<and> \<not> startswith (strip L) ''max (''" by auto
      with p1 have "snappy_loop loc rmin rmax inject True ls = ls"
        by (intro Cons.IH) auto
      with True nohead show ?thesis by (simp add: Let_def brace)
    next
      case False
      from Cons.prems(2) have mm: "(in_ref \<and> startswith (strip L) ''min ('') = False"
        "(in_ref \<and> startswith (strip L) ''max ('') = False" by auto
      from Cons.prems(2) have "(\<not> in_ref \<and> (\<forall>L \<in> set ls. \<not> startswith (strip L) ''refinementBox''))
           \<or> (\<forall>L \<in> set ls. \<not> startswith (strip L) ''min (''
                 \<and> \<not> startswith (strip L) ''max ('')" by auto
      with p1 have "snappy_loop loc rmin rmax inject in_ref ls = ls"
        by (intro Cons.IH)
      with False nohead show ?thesis by (simp add: Let_def brace mm)
    qed
  qed
qed

lemma subst_line_unchanged:
  "\<forall>k \<in> set (map fst kvs). match_key k L = None \<Longrightarrow> subst_line kvs L = L"
  by (induction kvs) auto

lemma keys_values_of: "map fst (values_of d dx dy dz) = block_keys"
  by (simp add: values_of_def block_keys_def)

lemma match_key_prefix: "\<not> prefix key (dropWhile is_space line) \<Longrightarrow> match_key key line = None"
  by (simp add: match_key_def)

text \<open>
  C7, as stated, fails: the scripts have no such error.  A refinement template with no
  \<open>castellatedMeshControls\<close> header and no \<open>refinementBox\<close> block, and a block-mesh
  template with none of the nine keys, are both written out as they are.
\<close>

theorem missing_structure_counterexample:
  "snappy_inject (domain_box unit_cube) unit_cube (''addLayers false;'' @ [CHR 0x0A])
     = ''addLayers false;'' @ [CHR 0x0A]
   \<and> generate_blockMeshDict unit_cube (35/100) (35/100) 1 (''vertices ();'' @ [CHR 0x0A])
     = ''vertices ();'' @ [CHR 0x0A]"
proof -
  have l1: "splitlines (''addLayers false;'' @ [CHR 0x0A]) = [''addLayers false;'']"
    by (simp add: text_eval)
  have l2: "splitlines (''vertices ();'' @ [CHR 0x0A]) = [''vertices ();'']"
    by (simp add: text_eval)
  have "snappy_loop loc rmin rmax False False [''addLayers false;''] = [''addLayers false;'']"
    for loc rmin rmax
    by (simp add: text_eval)
  then have a: "snappy_inject (domain_box unit_cube) unit_cube (''addLayers false;'' @ [CHR 0x0A])
     = ''addLayers false;'' @ [CHR 0x0A]"
    by (simp only: snappy_inject_def snappy_out_def l1) simp
  have "subst_line kvs ''vertices ();'' = ''vertices ();''" if "map fst kvs = block_keys" for kvs
    by (rule subst_line_unchanged) (simp add: that block_keys_def match_key_prefix is_space_def)
  then have b: "generate_blockMeshDict unit_cube (35/100) (35/100) 1 (''vertices ();'' @ [CHR 0x0A])
     = ''vertices ();'' @ [CHR 0x0A]"
    by (simp only: generate_blockMeshDict_def l2) (simp add: keys_values_of)
  from a b show ?thesis ..
qed

section \<open>Facts about the key pattern\<close>

lemma lazy_scan_sound:
  "lazy_scan acc ds = Some (mid, rest) \<Longrightarrow>
     \<exists>u. mid = acc @ u \<and> ds = u @ CHR '';'' # rest \<and> CHR '';'' \<notin> set u \<and> CHR 0x0A \<notin> set u"
proof (induction acc ds rule: lazy_scan.induct)
  case (1 acc)
  then show ?case by simp
next
  case (2 acc d ds)
  show ?case
  proof (cases "d = CHR '';''")
    case True
    with 2(2) show ?thesis by simp
  next
    case False
    with 2(2) have nl: "d \<noteq> CHR 0x0A" and rec: "lazy_scan (acc @ [d]) ds = Some (mid, rest)"
      by (auto split: if_splits)
    from 2(1)[OF False nl rec] obtain u where
      "mid = (acc @ [d]) @ u" "ds = u @ CHR '';'' # rest" "CHR '';'' \<notin> set u" "CHR 0x0A \<notin> set u"
      by blast
    with False nl have "mid = acc @ (d # u) \<and> d # ds = (d # u) @ CHR '';'' # rest
        \<and> CHR '';'' \<notin> set (d # u) \<and> CHR 0x0A \<notin> set (d # u)"
      by simp
    then show ?thesis by blast
  qed
qed

lemma lazy_scan_complete:
  "CHR '';'' \<notin> set u \<Longrightarrow> CHR 0x0A \<notin> set u \<Longrightarrow>
     lazy_scan acc (u @ CHR '';'' # rest) = Some (acc @ u, rest)"
  by (induction u arbitrary: acc) auto

lemma lazy_dot_semi_sound:
  assumes "lazy_dot_semi t = Some (mid, rest)"
  shows "t = mid @ CHR '';'' # rest \<and> mid \<noteq> [] \<and> CHR '';'' \<notin> set (tl mid) \<and> CHR 0x0A \<notin> set mid"
proof (cases t)
  case Nil
  with assms show ?thesis by simp
next
  case (Cons c cs)
  with assms have c: "c \<noteq> CHR 0x0A" and s: "lazy_scan [c] cs = Some (mid, rest)"
    by (auto split: if_splits)
  from lazy_scan_sound [OF s] obtain u where
    "mid = [c] @ u" "cs = u @ CHR '';'' # rest" "CHR '';'' \<notin> set u" "CHR 0x0A \<notin> set u"
    by blast
  with Cons c show ?thesis by simp
qed

lemma lazy_dot_semi_complete:
  assumes "mid \<noteq> []" "CHR '';'' \<notin> set (tl mid)" "CHR 0x0A \<notin> set mid"
  shows "lazy_dot_semi (mid @ CHR '';'' # rest) = Some (mid, rest)"
proof (cases mid)
  case Nil
  with assms show ?thesis by simp
next
  case (Cons c u)
  with assms have "CHR '';'' \<notin> set u" "CHR 0x0A \<notin> set u" "c \<noteq> CHR 0x0A" by auto
  then show ?thesis using Cons by (simp add: lazy_scan_complete)
qed

lemma backtrack_ws_sound:
  "backtrack_ws k ws t = Some (w, mid, rest) \<Longrightarrow>
     \<exists>j. 1 \<le> j \<and> j \<le> k \<and> w = take j ws \<and> lazy_dot_semi (drop j ws @ t) = Some (mid, rest)"
proof (induction k)
  case 0
  then show ?case by simp
next
  case (Suc k)
  show ?case
  proof (cases "lazy_dot_semi (drop (Suc k) ws @ t)")
    case None
    with Suc.prems have "backtrack_ws k ws t = Some (w, mid, rest)" by simp
    from Suc.IH [OF this] show ?thesis by (auto intro: le_SucI)
  next
    case (Some r)
    with Suc.prems have "w = take (Suc k) ws" "r = (mid, rest)" by (auto split: prod.splits)
    with Some show ?thesis by (intro exI [of _ "Suc k"]) simp
  qed
qed

lemma backtrack_ws_first:
  "lazy_dot_semi (drop (Suc k) ws @ t) = Some (mid, rest) \<Longrightarrow>
     backtrack_ws (Suc k) ws t = Some (take (Suc k) ws, mid, rest)"
  by simp

lemma prefix_drop: "prefix key r \<Longrightarrow> r = key @ drop (length key) r"
  by (metis append_eq_conv_conj prefix_def)

lemma match_key_unfold:
  "prefix key (dropWhile is_space line) \<Longrightarrow> match_key key line =
      (case backtrack_ws (length (takeWhile is_space (drop (length key) (dropWhile is_space line))))
              (takeWhile is_space (drop (length key) (dropWhile is_space line)))
              (dropWhile is_space (drop (length key) (dropWhile is_space line))) of
         None \<Rightarrow> None
       | Some (w, mid, rest) \<Rightarrow> Some (takeWhile is_space line @ key @ w, mid, rest))"
  by (simp add: match_key_def Let_def)

text \<open>What a successful match says about the line.\<close>

lemma match_key_sound:
  assumes "match_key key line = Some (g1, mid, rest)"
  shows "\<exists>w. g1 = takeWhile is_space line @ key @ w \<and> w \<noteq> [] \<and> (\<forall>c \<in> set w. is_space c)
           \<and> dropWhile is_space line = key @ w @ mid @ CHR '';'' # rest
           \<and> mid \<noteq> [] \<and> CHR '';'' \<notin> set (tl mid) \<and> CHR 0x0A \<notin> set mid"
proof -
  define r1 where "r1 = dropWhile is_space line"
  define r2 where "r2 = drop (length key) r1"
  define ws where "ws = takeWhile is_space r2"
  define t where "t = dropWhile is_space r2"
  have p: "prefix key r1"
  proof (rule ccontr)
    assume "\<not> prefix key r1"
    then have "match_key key line = None" unfolding r1_def by (rule match_key_prefix)
    with assms show False by simp
  qed
  have c: "(case backtrack_ws (length ws) ws t of
         None \<Rightarrow> None
       | Some (w, mid, rest) \<Rightarrow> Some (takeWhile is_space line @ key @ w, mid, rest))
       = Some (g1, mid, rest)"
    using match_key_unfold [of key line] p assms
    unfolding r1_def r2_def ws_def t_def by simp
  obtain w where
    bt: "backtrack_ws (length ws) ws t = Some (w, mid, rest)"
    and g1: "g1 = takeWhile is_space line @ key @ w"
  proof (cases "backtrack_ws (length ws) ws t")
    case None
    with c show ?thesis by simp
  next
    case (Some r)
    obtain w' m' r' where r: "r = (w', m', r')" by (cases r) auto
    from c Some r have "g1 = takeWhile is_space line @ key @ w'" "m' = mid" "r' = rest"
      by simp_all
    with Some r that show ?thesis by simp
  qed
  from backtrack_ws_sound [OF bt] obtain j where
    j: "1 \<le> j" "j \<le> length ws" "w = take j ws"
    and l: "lazy_dot_semi (drop j ws @ t) = Some (mid, rest)"
    by blast
  from lazy_dot_semi_sound [OF l] have
    tt: "drop j ws @ t = mid @ CHR '';'' # rest" and m: "mid \<noteq> []"
    "CHR '';'' \<notin> set (tl mid)" "CHR 0x0A \<notin> set mid"
    by auto
  from j have wne: "w \<noteq> []" by auto
  have wsp: "\<forall>c \<in> set w. is_space c"
    using j(3) unfolding ws_def by (metis in_set_takeD set_takeWhileD)
  have a: "r1 = key @ r2" unfolding r2_def using p by (rule prefix_drop)
  have "r2 = ws @ t" unfolding ws_def t_def by simp
  also have "\<dots> = (w @ drop j ws) @ t" unfolding j(3) by simp
  also have "\<dots> = w @ mid @ CHR '';'' # rest" using tt by simp
  finally have "r1 = key @ w @ mid @ CHR '';'' # rest" using a by simp
  with g1 wne wsp m show ?thesis unfolding r1_def by blast
qed

lemma match_key_line:
  assumes "match_key key line = Some (g1, mid, rest)"
  shows "line = g1 @ mid @ '';'' @ rest"
proof -
  from match_key_sound [OF assms] obtain w where
    "g1 = takeWhile is_space line @ key @ w"
    "dropWhile is_space line = key @ w @ mid @ CHR '';'' # rest" by blast
  moreover have "line = takeWhile is_space line @ dropWhile is_space line" by simp
  ultimately show ?thesis by simp
qed

text \<open>A line that has just been rewritten matches the same pattern in the same way.\<close>

lemma match_key_rewritten:
  assumes key: "key \<noteq> []" "\<not> is_space (hd key)"
    and lead: "\<forall>c \<in> set lead. is_space c"
    and w: "w \<noteq> []" "\<forall>c \<in> set w. is_space c"
    and f: "f \<noteq> []" "\<not> is_space (hd f)" "CHR '';'' \<notin> set f" "CHR 0x0A \<notin> set f"
  shows "match_key key (lead @ key @ w @ f @ CHR '';'' # rest) = Some (lead @ key @ w, f, rest)"
proof -
  let ?line = "lead @ key @ w @ f @ CHR '';'' # rest"
  from key obtain k ks where k: "key = k # ks" "\<not> is_space k" by (cases key) auto
  from f obtain c cs where c: "f = c # cs" "\<not> is_space c" by (cases f) auto
  have tl: "takeWhile is_space ?line = lead"
    using lead k by (simp add: takeWhile_append2)
  have dl: "dropWhile is_space ?line = key @ w @ f @ CHR '';'' # rest"
    using lead k by (simp add: dropWhile_append2)
  have r2: "drop (length key) (key @ w @ f @ CHR '';'' # rest) = w @ f @ CHR '';'' # rest"
    by simp
  have tw: "takeWhile is_space (w @ f @ CHR '';'' # rest) = w"
    using w c by (simp add: takeWhile_append2)
  have dw: "dropWhile is_space (w @ f @ CHR '';'' # rest) = f @ CHR '';'' # rest"
    using w c by (simp add: dropWhile_append2)
  from w obtain n where n: "length w = Suc n" by (cases w) auto
  have "CHR '';'' \<notin> set (tl f)" using f by (cases f) auto
  then have "lazy_dot_semi (f @ CHR '';'' # rest) = Some (f, rest)"
    using f by (intro lazy_dot_semi_complete) auto
  then have "backtrack_ws (length w) w (f @ CHR '';'' # rest) = Some (w, f, rest)"
    unfolding n using n by simp
  then show ?thesis
    unfolding match_key_def tl dl Let_def r2 tw dw by simp
qed

lemma prefix_append_foreign:
  assumes "prefix k (a @ b)" "b \<noteq> []" "hd b \<notin> set k"
  shows "prefix k a"
proof -
  from assms(1) have "prefix k a \<or> (\<exists>us. k = a @ us \<and> prefix us b)"
    by (simp add: prefix_append)
  then show ?thesis
  proof
    assume "\<exists>us. k = a @ us \<and> prefix us b"
    then obtain us where us: "k = a @ us" "prefix us b" by blast
    show ?thesis
    proof (cases us)
      case Nil
      with us show ?thesis by simp
    next
      case (Cons u us')
      with us(2) assms(2) have "hd b = u" by (cases b) auto
      with us(1) Cons assms(3) show ?thesis by simp
    qed
  qed
qed

lemma match_key_dropWhile:
  assumes "match_key k line = Some (g1, mid, rest)" "\<forall>c \<in> set k. \<not> is_space c"
    and "dropWhile is_space line = a @ b" "b \<noteq> []" "is_space (hd b)" "prefix k (a @ b)"
  shows "prefix k a"
  using assms(6,4)
proof (rule prefix_append_foreign)
  from assms(2,5) show "hd b \<notin> set k" by blast
qed

text \<open>Two keys without white space cannot both match one line.\<close>

lemma match_key_shape:
  assumes "match_key k line = Some (g1, mid, rest)"
  shows "\<exists>tail. dropWhile is_space line = k @ tail \<and> tail \<noteq> [] \<and> is_space (hd tail)"
proof -
  from match_key_sound [OF assms] obtain w where
    w: "w \<noteq> []" "\<forall>c \<in> set w. is_space c"
    and d: "dropWhile is_space line = k @ w @ mid @ CHR '';'' # rest" by blast
  define tail where "tail = w @ mid @ CHR '';'' # rest"
  from w have "tail \<noteq> []" "is_space (hd tail)" unfolding tail_def by (cases w; simp)+
  moreover from d have "dropWhile is_space line = k @ tail" unfolding tail_def .
  ultimately show ?thesis by blast
qed

lemma match_key_unique:
  assumes "match_key k line = Some (g1, mid, rest)" "match_key k' line = Some (g1', mid', rest')"
    and "\<forall>c \<in> set k. \<not> is_space c" "\<forall>c \<in> set k'. \<not> is_space c"
  shows "k = k'"
proof -
  from match_key_shape [OF assms(1)] obtain t where
    t: "dropWhile is_space line = k @ t" "t \<noteq> []" "is_space (hd t)" by blast
  from match_key_shape [OF assms(2)] obtain t' where
    t': "dropWhile is_space line = k' @ t'" "t' \<noteq> []" "is_space (hd t')" by blast
  have e: "k @ t = k' @ t'" using t(1) [symmetric] t'(1) by (rule trans)
  have "prefix k (k @ t)" by simp
  then have p1: "prefix k (k' @ t')" by (simp only: e)
  from assms(3) t'(3) have h1: "hd t' \<notin> set k" by blast
  have 1: "prefix k k'" by (rule prefix_append_foreign [OF p1 t'(2) h1])
  have "prefix k' (k' @ t')" by simp
  then have p2: "prefix k' (k @ t)" by (simp only: e [symmetric])
  from assms(4) t(3) have h2: "hd t \<notin> set k'" by blast
  have 2: "prefix k' k" by (rule prefix_append_foreign [OF p2 t(2) h2])
  from 1 2 show ?thesis by (rule prefix_order.antisym)
qed

text \<open>A key that did not match the line does not match the rewritten line either.\<close>

lemma match_key_other:
  assumes k: "\<forall>c \<in> set k. \<not> is_space c"
    and k': "k' \<noteq> []" "\<forall>c \<in> set k'. \<not> is_space c"
    and some: "match_key k' line = Some (g1, mid, rest)"
    and none: "match_key k line = None"
  shows "match_key k (g1 @ f @ CHR '';'' # rest) = None"
proof -
  from match_key_sound [OF some] obtain w where
    g1: "g1 = takeWhile is_space line @ k' @ w"
    and w: "w \<noteq> []" "\<forall>c \<in> set w. is_space c"
    and d: "dropWhile is_space line = k' @ w @ mid @ CHR '';'' # rest" by blast
  define lead where "lead = takeWhile is_space line"
  define tail where "tail = w @ f @ CHR '';'' # rest"
  have lead: "\<forall>c \<in> set lead. is_space c"
    unfolding lead_def by (auto dest: set_takeWhileD)
  from k' obtain c cs where c: "k' = c # cs" "\<not> is_space c" by (cases k') auto
  have new: "g1 @ f @ CHR '';'' # rest = lead @ k' @ tail"
    by (simp add: g1 lead_def tail_def)
  have dn: "dropWhile is_space (lead @ k' @ tail) = k' @ tail"
    using lead c by (simp add: dropWhile_append2)
  have tail: "tail \<noteq> []" "is_space (hd tail)"
    using w unfolding tail_def by (cases w; simp)+
  show ?thesis
  proof (cases "prefix k (k' @ tail)")
    case False
    then have "\<not> prefix k (dropWhile is_space (lead @ k' @ tail))" unfolding dn .
    then show ?thesis unfolding new by (rule match_key_prefix)
  next
    case True
    from k tail(2) have ht: "hd tail \<notin> set k" by blast
    have pk: "prefix k k'" by (rule prefix_append_foreign [OF True tail(1) ht])
    have "k \<noteq> k'" using some none by auto
    with pk obtain u where u: "k' = k @ u" "u \<noteq> []" by (auto simp add: prefix_def)
    then have hu: "\<not> is_space (hd u)" using k'(2) by (cases u) auto
    have "drop (length k) (k' @ tail) = u @ tail" using u by simp
    moreover have "takeWhile is_space (u @ tail) = []" using u(2) hu by (cases u) auto
    ultimately have "match_key k (lead @ k' @ tail) = None"
      using match_key_unfold [of k "lead @ k' @ tail"] True by (simp add: dn)
    then show ?thesis unfolding new .
  qed
qed

lemma subst_line_skip:
  "\<forall>k \<in> set (map fst pre). match_key k line = None \<Longrightarrow>
     subst_line (pre @ kvs) line = subst_line kvs line"
  by (induction pre) auto

lemma fmt6_shape:
  "\<exists>a f. fmt6 v = a @ ''.'' @ f \<and> length f = 6 \<and> (\<forall>c \<in> set f. is_digit c)
     \<and> a \<noteq> [] \<and> (\<forall>c \<in> set a. c = CHR ''-'' \<or> is_digit c)"
proof -
  define n where "n = nat (round_half_even (\<bar>v\<bar> * 1000000))"
  define a where "a = (if v < 0 then ''-'' else []) @ show_nat (n div 1000000)"
  have "fmt6 v = a @ ''.'' @ frac6 (n mod 1000000)"
    by (simp add: fmt6_def Let_def n_def a_def)
  moreover have "length (frac6 (n mod 1000000)) = 6" by (simp add: frac6_def)
  moreover have "\<forall>c \<in> set (frac6 (n mod 1000000)). is_digit c"
    by (simp add: frac6_def digit_char_digit)
  moreover have "a \<noteq> []" by (simp add: a_def show_nat_nonempty)
  moreover have "\<forall>c \<in> set a. c = CHR ''-'' \<or> is_digit c"
    by (auto simp add: a_def dest: show_nat_digits)
  ultimately show ?thesis by blast
qed

lemma fmt6_chars:
  assumes "c \<in> set (fmt6 v)"
  shows "c = CHR ''-'' \<or> c = CHR ''.'' \<or> is_digit c"
proof -
  define n where "n = nat (round_half_even (\<bar>v\<bar> * 1000000))"
  define sg where "sg = (if v < 0 then ''-'' else [])"
  have e: "fmt6 v = sg @ show_nat (n div 1000000) @ ''.'' @ frac6 (n mod 1000000)"
    by (simp add: fmt6_def Let_def n_def sg_def)
  from assms have "c \<in> set sg \<or> c \<in> set (show_nat (n div 1000000)) \<or> c = CHR ''.''
      \<or> c \<in> set (frac6 (n mod 1000000))"
    unfolding e by auto
  moreover have "c = CHR ''-''" if "c \<in> set sg"
    using that unfolding sg_def by (cases "v < 0") simp_all
  moreover have "is_digit c" if "c \<in> set (show_nat (n div 1000000))"
    using that by (rule show_nat_digits)
  moreover have "is_digit c" if "c \<in> set (frac6 (n mod 1000000))"
    using that unfolding frac6_def by (auto simp add: digit_char_digit)
  ultimately show ?thesis by metis
qed

lemma number_char_plain:
  assumes "c = CHR ''-'' \<or> c = CHR ''.'' \<or> is_digit c"
  shows "\<not> is_space c \<and> \<not> is_linebreak c \<and> c \<noteq> CHR '';'' \<and> c \<noteq> CHR 0x0A"
  using assms
proof (elim disjE)
  assume "c = CHR ''-''"
  then show ?thesis by (simp add: is_space_def is_linebreak_def)
next
  assume "c = CHR ''.''"
  then show ?thesis by (simp add: is_space_def is_linebreak_def)
next
  assume d: "is_digit c"
  then have "c \<noteq> CHR '';'' \<and> c \<noteq> CHR 0x0A" by (auto simp add: is_digit_def)
  with d show ?thesis by (simp add: is_digit_no_space is_digit_no_break)
qed

lemma fmt6_plain:
  "fmt6 v \<noteq> []" "\<not> is_space (hd (fmt6 v))" "CHR '';'' \<notin> set (fmt6 v)" "CHR 0x0A \<notin> set (fmt6 v)"
proof -
  show ne: "fmt6 v \<noteq> []" by (simp add: fmt6_def Let_def)
  have p: "\<not> is_space c \<and> c \<noteq> CHR '';'' \<and> c \<noteq> CHR 0x0A" if "c \<in> set (fmt6 v)" for c
    using number_char_plain [OF fmt6_chars [OF that]] by blast
  from ne have "hd (fmt6 v) \<in> set (fmt6 v)" by (rule hd_in_set)
  with p show "\<not> is_space (hd (fmt6 v))" by blast
  from p show "CHR '';'' \<notin> set (fmt6 v)" by blast
  from p show "CHR 0x0A \<notin> set (fmt6 v)" by blast
qed

lemma fmt6_no_break: "c \<in> set (fmt6 v) \<Longrightarrow> \<not> is_linebreak c"
  using number_char_plain [OF fmt6_chars] by blast

text \<open>Rewriting a line a second time changes nothing.\<close>

lemma subst_line_idem:
  assumes keys: "\<forall>k \<in> set (map fst kvs). k \<noteq> [] \<and> (\<forall>c \<in> set k. \<not> is_space c)"
  shows "subst_line kvs (subst_line kvs line) = subst_line kvs line"
proof (cases "\<forall>k \<in> set (map fst kvs). match_key k line = None")
  case True
  then have "subst_line kvs line = line" by (rule subst_line_unchanged)
  then show ?thesis by simp
next
  case False
  then have "\<exists>kv \<in> set kvs. match_key (fst kv) line \<noteq> None" by auto
  then obtain pre kv post where
    split: "kvs = pre @ kv # post" and hit: "match_key (fst kv) line \<noteq> None"
    and miss: "\<forall>p \<in> set pre. \<not> match_key (fst p) line \<noteq> None"
    by (auto simp add: split_list_first_prop_iff)
  obtain k v where kv: "kv = (k, v)" by (cases kv)
  from hit kv obtain g1 mid rest where m: "match_key k line = Some (g1, mid, rest)" by auto
  let ?new = "g1 @ fmt6 v @ CHR '';'' # rest"
  have pre_none: "\<forall>k \<in> set (map fst pre). match_key k line = None"
  proof
    fix k assume "k \<in> set (map fst pre)"
    then obtain p where "p \<in> set pre" "k = fst p" by auto
    with miss have "\<not> match_key k line \<noteq> None" by blast
    then show "match_key k line = None" by (rule notnotD)
  qed
  have first: "subst_line kvs line = ?new"
    unfolding split using m kv by (simp add: subst_line_skip [OF pre_none])
  from keys split kv have kk: "k \<noteq> []" "\<forall>c \<in> set k. \<not> is_space c" by auto
  have pre_new: "\<forall>k' \<in> set (map fst pre). match_key k' ?new = None"
  proof
    fix k' assume k': "k' \<in> set (map fst pre)"
    with keys split have sp: "\<forall>c \<in> set k'. \<not> is_space c" by auto
    from k' pre_none have no: "match_key k' line = None" by blast
    show "match_key k' ?new = None"
      by (rule match_key_other [OF sp kk m no])
  qed
  from match_key_sound [OF m] obtain w where
    g1: "g1 = takeWhile is_space line @ k @ w" and w: "w \<noteq> []" "\<forall>c \<in> set w. is_space c"
    by blast
  have "match_key k (takeWhile is_space line @ k @ w @ fmt6 v @ CHR '';'' # rest)
      = Some (takeWhile is_space line @ k @ w, fmt6 v, rest)"
    by (rule match_key_rewritten) (use kk w fmt6_plain [of v] in \<open>auto dest: set_takeWhileD\<close>)
  then have again: "match_key k ?new = Some (g1, fmt6 v, rest)" by (simp add: g1)
  have "subst_line kvs ?new = ?new"
    unfolding split using again kv by (simp add: subst_line_skip [OF pre_new])
  with first show ?thesis by simp
qed

lemma subst_line_first:
  assumes "distinct (map fst kvs)" "\<forall>k \<in> set (map fst kvs). \<forall>c \<in> set k. \<not> is_space c"
    and "(k, v) \<in> set kvs" "match_key k line = Some (g1, mid, rest)"
  shows "subst_line kvs line = g1 @ fmt6 v @ '';'' @ rest"
  using assms(1,2,3)
proof (induction kvs)
  case Nil
  then show ?case by simp
next
  case (Cons kv kvs)
  obtain k0 v0 where kv: "kv = (k0, v0)" by (cases kv)
  show ?case
  proof (cases "k0 = k")
    case True
    with Cons.prems kv have "v0 = v" by (auto simp add: rev_image_eqI)
    with True kv assms(4) show ?thesis by simp
  next
    case False
    have "match_key k0 line = None"
    proof (cases "match_key k0 line")
      case (Some r)
      obtain a b c where "r = (a, b, c)" by (cases r) auto
      with Some have "match_key k0 line = Some (a, b, c)" by simp
      from match_key_unique [OF this assms(4)] Cons.prems(2) Cons.prems(3) kv have "k0 = k"
        by (auto simp add: rev_image_eqI)
      with False show ?thesis by simp
    qed simp
    moreover from Cons.prems kv False have d: "distinct (map fst kvs)"
      and p: "\<forall>k \<in> set (map fst kvs). \<forall>c \<in> set k. \<not> is_space c"
      and i: "(k, v) \<in> set kvs" by auto
    have "subst_line kvs line = g1 @ fmt6 v @ '';'' @ rest"
      by (rule Cons.IH [OF d p i])
    ultimately show ?thesis using kv by simp
  qed
qed

lemma subst_line_no_break:
  assumes "\<forall>c \<in> set line. \<not> is_linebreak c"
  shows "\<forall>c \<in> set (subst_line kvs line). \<not> is_linebreak c"
proof (induction kvs)
  case Nil
  with assms show ?case by simp
next
  case (Cons kv kvs)
  obtain k v where kv: "kv = (k, v)" by (cases kv)
  show ?case
  proof (cases "match_key k line")
    case None
    with Cons kv show ?thesis by simp
  next
    case (Some r)
    obtain g1 mid rest where r: "r = (g1, mid, rest)" by (cases r) auto
    from Some r have "match_key k line = Some (g1, mid, rest)" by simp
    then have "line = g1 @ mid @ '';'' @ rest" by (rule match_key_line)
    with assms have "\<forall>c \<in> set g1. \<not> is_linebreak c" "\<forall>c \<in> set rest. \<not> is_linebreak c"
      by (metis Un_iff set_append)+
    moreover have "\<not> is_linebreak (CHR '';'')" by (simp add: is_linebreak_def)
    ultimately show ?thesis using Some r kv fmt6_no_break [of _ v] by auto
  qed
qed

lemma block_keys_plain: "\<forall>k \<in> set block_keys. k \<noteq> [] \<and> (\<forall>c \<in> set k. \<not> is_space c)"
  by (simp add: block_keys_def is_space_def)

lemma block_keys_distinct: "distinct block_keys"
  by (simp add: block_keys_def)

lemma match_key_empty: "k \<noteq> [] \<Longrightarrow> match_key k [] = None"
  by (simp add: match_key_def)

lemma generate_blockMeshDict_idem:
  "generate_blockMeshDict b dx dy dz (generate_blockMeshDict b dx dy dz template)
     = generate_blockMeshDict b dx dy dz template"
proof -
  define kvs where "kvs = values_of (domain_box b) dx dy dz"
  have keys: "map fst kvs = block_keys" unfolding kvs_def by (rule keys_values_of)
  have plain: "\<forall>k \<in> set (map fst kvs). k \<noteq> [] \<and> (\<forall>c \<in> set k. \<not> is_space c)"
    unfolding keys by (rule block_keys_plain)
  define ls where "ls = splitlines template"
  have g: "generate_blockMeshDict b dx dy dz t
      = join [CHR 0x0A] (map (subst_line kvs) (splitlines t)) @ [CHR 0x0A]" for t
    by (simp add: generate_blockMeshDict_def kvs_def)
  show ?thesis
  proof (cases "ls = []")
    case True
    then have out: "generate_blockMeshDict b dx dy dz template = [CHR 0x0A]"
      by (simp add: g ls_def)
    have "splitlines [CHR 0x0A] = [[]]" by (simp add: text_eval)
    moreover have "subst_line kvs [] = []"
      by (rule subst_line_unchanged) (use plain in \<open>simp add: match_key_empty\<close>)
    ultimately have "generate_blockMeshDict b dx dy dz [CHR 0x0A] = [CHR 0x0A]"
      by (simp add: g)
    with out show ?thesis by simp
  next
    case False
    then have out: "generate_blockMeshDict b dx dy dz template = write_lines (map (subst_line kvs) ls)"
      by (simp add: g ls_def join_write_lines)
    have "\<forall>l \<in> set (map (subst_line kvs) ls). \<forall>c \<in> set l. \<not> is_linebreak c"
    proof
      fix l assume "l \<in> set (map (subst_line kvs) ls)"
      then obtain L where L: "L \<in> set ls" "l = subst_line kvs L" by auto
      from L(1) have "\<forall>c \<in> set L. \<not> is_linebreak c"
        unfolding ls_def by (blast dest: splitlines_no_break)
      then show "\<forall>c \<in> set l. \<not> is_linebreak c" unfolding L(2) by (rule subst_line_no_break)
    qed
    then have "splitlines (write_lines (map (subst_line kvs) ls)) = map (subst_line kvs) ls"
      by (rule splitlines_write_lines)
    then have "generate_blockMeshDict b dx dy dz (write_lines (map (subst_line kvs) ls))
        = join [CHR 0x0A] (map (subst_line kvs) (map (subst_line kvs) ls)) @ [CHR 0x0A]"
      by (simp only: g)
    also have "map (subst_line kvs) (map (subst_line kvs) ls) = map (subst_line kvs) ls"
      by (simp add: subst_line_idem [OF plain])
    finally show ?thesis unfolding out using False by (simp add: join_write_lines)
  qed
qed

text \<open>
  The white space after the key is given back only when nothing else can stand for
  the value: in \<open>xmin  ;\<close> the second blank is what \<open>.+?\<close> takes.
\<close>

lemma match_key_backtrack_example:
  "match_key ''xmin'' ''xmin  ;'' = Some (''xmin '', '' '', [])"
  by (simp add: match_key_def is_space_def)

section \<open>Results on the numeric key rewrite\<close>

lemma values_of_keys:
  "distinct (map fst (values_of d dx dy dz))"
  "\<forall>k \<in> set (map fst (values_of d dx dy dz)). k \<noteq> [] \<and> (\<forall>c \<in> set k. \<not> is_space c)"
  unfolding keys_values_of by (rule block_keys_distinct, rule block_keys_plain)

lemmas fmt_eval = fmt6_def round_half_even_def show_nat_small show_nat_large frac6_def
  digit_char_def Let_def

lemma domain_box_unit_cube:
  "domain_box unit_cube = \<lparr> xmin = -3, xmax = 16, ymin = -3, ymax = 4, zmin = -3, zmax = 4 \<rparr>"
  by (simp add: domain_box_def char_length_unit_cube) (simp add: unit_cube_def)

lemma fmt6_examples:
  "fmt6 (-3) = ''-3.000000''" "fmt6 16 = ''16.000000''" "fmt6 4 = ''4.000000''"
  by (simp_all add: fmt_eval)

text \<open>
  C5, as stated, fails: what the rewrite replaces is not only the numeric literal.  In
  \<open>xmin -1 ;\<close> the blank before the semicolon goes with the literal, and in
  \<open>xmin $xlow;\<close> the text replaced is no numeric literal at all.
\<close>

theorem numeric_key_rewrite_counterexample:
  "match_key ''xmin'' ''xmin -1 ;'' = Some (''xmin '', ''-1 '', [])
   \<and> subst_line (values_of (domain_box unit_cube) (35/100) (35/100) 1) ''xmin -1 ;''
       = ''xmin -3.000000;''
   \<and> match_key ''xmin'' ''xmin $xlow;'' = Some (''xmin '', ''$xlow'', [])
   \<and> subst_line (values_of (domain_box unit_cube) (35/100) (35/100) 1) ''xmin $xlow;''
       = ''xmin -3.000000;''"
  by (simp add: domain_box_unit_cube values_of_def match_key_def is_space_def fmt6_examples Let_def)

text \<open>
  C5, amended.  When the pattern of a key matches a line, the line is group 1 (the
  leading white space, the key and the white space after it), a non-empty text that
  ends before the first semicolon behind its first character, that semicolon, and a
  rest.  The rewrite keeps group 1, the semicolon and the rest and puts the value,
  printed with a point and exactly six digits after it, in place of all the text in
  between.  Rewriting a line again, and generating the dictionary again from its own
  output with the same values, changes nothing.
\<close>

theorem numeric_key_rewrite:
  assumes "(k, v) \<in> set (values_of d dx dy dz)"
    and "match_key k line = Some (g1, mid, rest)"
  shows "line = g1 @ mid @ '';'' @ rest
    \<and> mid \<noteq> [] \<and> CHR '';'' \<notin> set (tl mid)
    \<and> (\<exists>w. g1 = takeWhile is_space line @ k @ w \<and> w \<noteq> [] \<and> (\<forall>c \<in> set w. is_space c))
    \<and> subst_line (values_of d dx dy dz) line = g1 @ fmt6 v @ '';'' @ rest
    \<and> (\<exists>a f. fmt6 v = a @ ''.'' @ f \<and> length f = 6 \<and> (\<forall>c \<in> set f. is_digit c)
          \<and> a \<noteq> [] \<and> (\<forall>c \<in> set a. c = CHR ''-'' \<or> is_digit c))
    \<and> subst_line (values_of d dx dy dz) (subst_line (values_of d dx dy dz) line)
        = subst_line (values_of d dx dy dz) line
    \<and> generate_blockMeshDict b dx dy dz (generate_blockMeshDict b dx dy dz template)
        = generate_blockMeshDict b dx dy dz template"
proof -
  have 1: "line = g1 @ mid @ '';'' @ rest" using assms(2) by (rule match_key_line)
  from match_key_sound [OF assms(2)] obtain w where
    w: "g1 = takeWhile is_space line @ k @ w" "w \<noteq> []" "\<forall>c \<in> set w. is_space c"
    and 2: "mid \<noteq> []" "CHR '';'' \<notin> set (tl mid)" by blast
  from w have 3: "\<exists>w. g1 = takeWhile is_space line @ k @ w \<and> w \<noteq> [] \<and> (\<forall>c \<in> set w. is_space c)"
    by blast
  from values_of_keys [of d dx dy dz] have
    "\<forall>k \<in> set (map fst (values_of d dx dy dz)). \<forall>c \<in> set k. \<not> is_space c" by blast
  with values_of_keys(1) have 4: "subst_line (values_of d dx dy dz) line = g1 @ fmt6 v @ '';'' @ rest"
    using assms by (rule subst_line_first)
  have 5: "subst_line (values_of d dx dy dz) (subst_line (values_of d dx dy dz) line)
        = subst_line (values_of d dx dy dz) line"
    using values_of_keys(2) by (rule subst_line_idem)
  from 1 2 3 4 fmt6_shape [of v] 5 generate_blockMeshDict_idem [of b dx dy dz template]
  show ?thesis by (intro conjI)
qed

theorem numeric_key_rewrite_witness:
  "(''xmin'', -3) \<in> set (values_of (domain_box unit_cube) (35/100) (35/100) 1)
   \<and> match_key ''xmin'' ''    xmin   -1;  // lower x''
        = Some (''    xmin   '', ''-1'', ''  // lower x'')
   \<and> subst_line (values_of (domain_box unit_cube) (35/100) (35/100) 1) ''    xmin   -1;  // lower x''
        = ''    xmin   -3.000000;  // lower x''"
proof -
  have h1: "(''xmin'', -3) \<in> set (values_of (domain_box unit_cube) (35/100) (35/100) 1)"
    by (simp add: values_of_def domain_box_def char_length_unit_cube) (simp add: unit_cube_def)
  have h2: "match_key ''xmin'' ''    xmin   -1;  // lower x''
        = Some (''    xmin   '', ''-1'', ''  // lower x'')"
    by (simp add: match_key_def is_space_def)
  have f: "fmt6 (-3) = ''-3.000000''" by (simp add: fmt_eval)
  from numeric_key_rewrite [OF h1 h2] have
    "subst_line (values_of (domain_box unit_cube) (35/100) (35/100) 1) ''    xmin   -1;  // lower x''
       = ''    xmin   '' @ fmt6 (-3) @ '';'' @ ''  // lower x''" by blast
  with h1 h2 f show ?thesis by simp
qed

section \<open>Results on reading the block bounds back\<close>

lemma py_float_examples:
  "py_float ''-3.000000'' = Some (-3)" "py_float ''16.000000'' = Some 16"
  "py_float ''4.000000'' = Some 4"
  by (simp_all add: py_float_def is_digit_def digits_value_def digit_value_def)

lemmas read_eval = read_block_bounds_def read_pair_def search_pair_def key_part_def
  is_space_def is_numch_def is_digit_def

text \<open>The dictionary generated for the unit cube is read back as its domain box.\<close>

lemma generate_unit_cube:
  "generate_blockMeshDict unit_cube (35/100) (35/100) 1 bounds_template
   = ''xmin -3.000000;'' @ [CHR 0x0A] @ ''xmax 16.000000;'' @ [CHR 0x0A] @
     ''ymin -3.000000;'' @ [CHR 0x0A] @ ''ymax 4.000000;'' @ [CHR 0x0A] @
     ''zmin -3.000000;'' @ [CHR 0x0A] @ ''zmax 4.000000;'' @ [CHR 0x0A]"
proof -
  have l: "splitlines bounds_template
      = [''xmin 0;'', ''xmax 0;'', ''ymin 0;'', ''ymax 0;'', ''zmin 0;'', ''zmax 0;'']"
    by (simp add: bounds_template_def text_eval)
  show ?thesis
    unfolding generate_blockMeshDict_def domain_box_unit_cube l
    by (simp add: values_of_def match_key_def is_space_def fmt6_examples)
qed

lemma read_unit_cube:
  "read_block_bounds (generate_blockMeshDict unit_cube (35/100) (35/100) 1 bounds_template)
   = Inr (domain_box unit_cube)"
  unfolding generate_unit_cube domain_box_unit_cube
  by (simp add: read_eval py_float_examples)

text \<open>
  The last \<open>xmax\<close> entry of the text is the one read: a trailing comment with such an
  entry replaces the downstream bound.
\<close>

lemma read_trailing_comment:
  "read_block_bounds (generate_blockMeshDict unit_cube (35/100) (35/100) 1 bounds_template
       @ ''// old: xmax 99;'')
   = Inr \<lparr> xmin = -3, xmax = 99, ymin = -3, ymax = 4, zmin = -3, zmax = 4 \<rparr>"
proof -
  have "py_float ''99'' = Some 99"
    by (simp add: py_float_def is_digit_def digits_value_def digit_value_def)
  then show ?thesis
    unfolding generate_unit_cube
    by (simp add: read_eval py_float_examples)
qed

lemma read_no_xmin:
  "first_part ''xmin'' data = None \<Longrightarrow> read_block_bounds data = Inl AttributeError"
  by (simp add: read_block_bounds_def read_pair_def search_pair_def)

theorem domain_box_containment_witness:
  "strictly_contains (domain_box unit_cube) unit_cube
   \<and> domain_box point_box = point_box
   \<and> read_block_bounds (generate_blockMeshDict unit_cube (35/100) (35/100) 1 bounds_template)
       = Inr (domain_box unit_cube)
   \<and> contained_in (refinement_region (domain_box unit_cube) unit_cube) (domain_box unit_cube)"
  using domain_box_containment [of unit_cube "domain_box unit_cube"]
    domain_box_containment [of point_box "domain_box unit_cube"] read_unit_cube
  by (simp add: char_length_unit_cube char_length_point_box)

section \<open>Results on missing template structure, continued\<close>

lemma snappy_loop_no_insert:
  assumes "(\<not> inject \<and> (\<forall>L \<in> set ls. strip L \<noteq> ''castellatedMeshControls''))
           \<or> (\<forall>L \<in> set ls. strip L \<noteq> ''{'')"
  shows "list_all2 (\<lambda>out L. out = L \<or> out = rmin \<or> out = rmax)
           (snappy_loop loc rmin rmax inject in_ref ls) ls"
  using assms
proof (induction ls arbitrary: inject in_ref)
  case Nil
  show ?case by simp
next
  case (Cons L ls)
  let ?P = "\<lambda>out L. out = L \<or> out = rmin \<or> out = rmax"
  show ?case
  proof (cases "strip L = ''castellatedMeshControls''")
    case True
    with Cons.prems have "\<forall>L \<in> set ls. strip L \<noteq> ''{''" by auto
    then have "list_all2 ?P (snappy_loop loc rmin rmax True in_ref ls) ls"
      by (intro Cons.IH) simp
    with True show ?thesis by simp
  next
    case nohead: False
    from Cons.prems have brace: "(inject \<and> strip L = ''{'') = False" by auto
    from Cons.prems have p: "(\<not> inject \<and> (\<forall>L \<in> set ls. strip L \<noteq> ''castellatedMeshControls''))
           \<or> (\<forall>L \<in> set ls. strip L \<noteq> ''{'')" by auto
    have ih: "list_all2 ?P (snappy_loop loc rmin rmax inject f ls) ls" for f
      using p by (rule Cons.IH)
    from nohead ih [of True] ih [of False] ih [of in_ref] show ?thesis
      by (simp add: Let_def brace)
  qed
qed

lemma kept_Cons:
  "subseq ls out \<and> set out \<subseteq> insert loc (set ls) \<Longrightarrow>
     subseq (L # ls) (L # out) \<and> set (L # out) \<subseteq> insert loc (set (L # ls))"
  by auto

lemma kept_Cons_insert:
  "subseq ls out \<and> set out \<subseteq> insert loc (set ls) \<Longrightarrow>
     subseq (L # ls) (L # loc # out) \<and> set (L # loc # out) \<subseteq> insert loc (set (L # ls))"
  by (auto intro: list_emb_Cons)

lemma snappy_loop_no_overwrite:
  assumes "(\<not> in_ref \<and> (\<forall>L \<in> set ls. \<not> startswith (strip L) ''refinementBox''))
           \<or> (\<forall>L \<in> set ls. \<not> startswith (strip L) ''min (''
                 \<and> \<not> startswith (strip L) ''max ('')"
  shows "subseq ls (snappy_loop loc rmin rmax inject in_ref ls)
         \<and> set (snappy_loop loc rmin rmax inject in_ref ls) \<subseteq> insert loc (set ls)"
  using assms
proof (induction ls arbitrary: inject in_ref)
  case Nil
  show ?case by simp
next
  case (Cons L ls)
  have step: "subseq ls (snappy_loop loc rmin rmax i f ls)
         \<and> set (snappy_loop loc rmin rmax i f ls) \<subseteq> insert loc (set ls)"
    if "f = in_ref \<or> startswith (strip L) ''refinementBox''" for i f
  proof (rule Cons.IH)
    from that Cons.prems
    show "(\<not> f \<and> (\<forall>L \<in> set ls. \<not> startswith (strip L) ''refinementBox''))
           \<or> (\<forall>L \<in> set ls. \<not> startswith (strip L) ''min (''
                 \<and> \<not> startswith (strip L) ''max ('')"
      by auto
  qed
  show ?case
  proof (cases "strip L = ''castellatedMeshControls''")
    case True
    then have "snappy_loop loc rmin rmax inject in_ref (L # ls)
        = L # snappy_loop loc rmin rmax True in_ref ls" by simp
    moreover have "subseq (L # ls) (L # snappy_loop loc rmin rmax True in_ref ls)
        \<and> set (L # snappy_loop loc rmin rmax True in_ref ls) \<subseteq> insert loc (set (L # ls))"
      by (rule kept_Cons) (rule step, simp)
    ultimately show ?thesis by simp
  next
    case nohead: False
    show ?thesis
    proof (cases "inject \<and> strip L = ''{''")
      case True
      with nohead have "snappy_loop loc rmin rmax inject in_ref (L # ls)
          = L # loc # snappy_loop loc rmin rmax False in_ref ls" by simp
      moreover have "subseq (L # ls) (L # loc # snappy_loop loc rmin rmax False in_ref ls)
          \<and> set (L # loc # snappy_loop loc rmin rmax False in_ref ls)
              \<subseteq> insert loc (set (L # ls))"
        by (rule kept_Cons_insert) (rule step, simp)
      ultimately show ?thesis by simp
    next
      case nobrace: False
      then have nb: "(inject \<and> strip L = ''{'') = False" by simp
      show ?thesis
      proof (cases "startswith (strip L) ''refinementBox''")
        case True
        with nohead have "snappy_loop loc rmin rmax inject in_ref (L # ls)
            = L # snappy_loop loc rmin rmax inject True ls" by (simp add: Let_def nb)
        moreover have "subseq (L # ls) (L # snappy_loop loc rmin rmax inject True ls)
            \<and> set (L # snappy_loop loc rmin rmax inject True ls) \<subseteq> insert loc (set (L # ls))"
          by (rule kept_Cons) (rule step, simp add: True)
        ultimately show ?thesis by simp
      next
        case False
        with Cons.prems have mm: "(in_ref \<and> startswith (strip L) ''min ('') = False"
          "(in_ref \<and> startswith (strip L) ''max ('') = False" by auto
        from nohead False have "snappy_loop loc rmin rmax inject in_ref (L # ls)
            = L # snappy_loop loc rmin rmax inject in_ref ls" by (simp add: Let_def nb mm)
        moreover have "subseq (L # ls) (L # snappy_loop loc rmin rmax inject in_ref ls)
            \<and> set (L # snappy_loop loc rmin rmax inject in_ref ls) \<subseteq> insert loc (set (L # ls))"
          by (rule kept_Cons) (rule step, simp)
        ultimately show ?thesis by simp
      qed
    qed
  qed
qed


text \<open>
  C7, amended.  The scripts have no \<open>TemplateFormatError\<close>; a missing token leaves
  the substitution out.  If the refinement template has no \<open>castellatedMeshControls\<close>
  line or no \<open>{\<close> line, no line is inserted: the lines of the output are those of the
  template, one for one, each kept or replaced by the \<open>min\<close> or \<open>max\<close> entry.  If it
  has no \<open>refinementBox\<close> line or no \<open>min (\<close> and \<open>max (\<close> lines, no line is
  overwritten: every line of the template is kept, in order, and only the placement
  line may be added.  If both are missing the text is written out as it is.  If no
  line of the block-mesh template matches a key pattern, its lines are written out
  as they are.  The one failure on a missing token is that of reading the bounds
  back: a generated block-mesh dictionary without an \<open>xmin\<close> entry ends case
  preparation with an \<open>AttributeError\<close>, and whenever the bounds are read the refinement
  dictionary is produced.
\<close>

theorem missing_structure_is_silent:
  "((\<forall>L \<in> set (splitlines sdict). strip L \<noteq> ''castellatedMeshControls'')
       \<or> (\<forall>L \<in> set (splitlines sdict). strip L \<noteq> ''{'')
    \<longrightarrow> list_all2 (\<lambda>out L. out = L \<or> out = ref_min s \<or> out = ref_max m s)
          (snappy_out m s sdict) (splitlines sdict))
   \<and> ((\<forall>L \<in> set (splitlines sdict). \<not> startswith (strip L) ''refinementBox'')
       \<or> (\<forall>L \<in> set (splitlines sdict). \<not> startswith (strip L) ''min (''
              \<and> \<not> startswith (strip L) ''max ('')
    \<longrightarrow> subseq (splitlines sdict) (snappy_out m s sdict)
        \<and> set (snappy_out m s sdict) \<subseteq> insert (loc_str m s) (set (splitlines sdict)))
   \<and> (((\<forall>L \<in> set (splitlines sdict). strip L \<noteq> ''castellatedMeshControls'')
       \<or> (\<forall>L \<in> set (splitlines sdict). strip L \<noteq> ''{''))
    \<and> ((\<forall>L \<in> set (splitlines sdict). \<not> startswith (strip L) ''refinementBox'')
       \<or> (\<forall>L \<in> set (splitlines sdict). \<not> startswith (strip L) ''min (''
              \<and> \<not> startswith (strip L) ''max (''))
    \<longrightarrow> snappy_inject m s sdict = join [CHR 0x0A] (splitlines sdict) @ [CHR 0x0A])
   \<and> ((\<forall>L \<in> set (splitlines template). \<forall>k \<in> set block_keys. match_key k L = None)
    \<longrightarrow> generate_blockMeshDict b dx dy dz template
          = join [CHR 0x0A] (splitlines template) @ [CHR 0x0A])
   \<and> (first_part ''xmin'' bmd = None \<longrightarrow> snappy_dict bmd s fname sdict = Inl AttributeError)
   \<and> (read_block_bounds bmd = Inr m \<longrightarrow>
        snappy_dict bmd s fname sdict = Inr (snappy_inject m s (snappy_rename fname sdict)))"
proof (intro conjI impI)
  assume "(\<forall>L \<in> set (splitlines sdict). strip L \<noteq> ''castellatedMeshControls'')
       \<or> (\<forall>L \<in> set (splitlines sdict). strip L \<noteq> ''{'')"
  then show "list_all2 (\<lambda>out L. out = L \<or> out = ref_min s \<or> out = ref_max m s)
          (snappy_out m s sdict) (splitlines sdict)"
    unfolding snappy_out_def by (intro snappy_loop_no_insert) simp
next
  assume h: "(\<forall>L \<in> set (splitlines sdict). \<not> startswith (strip L) ''refinementBox'')
       \<or> (\<forall>L \<in> set (splitlines sdict). \<not> startswith (strip L) ''min (''
              \<and> \<not> startswith (strip L) ''max ('')"
  have "subseq (splitlines sdict) (snappy_out m s sdict)
        \<and> set (snappy_out m s sdict) \<subseteq> insert (loc_str m s) (set (splitlines sdict))"
    unfolding snappy_out_def by (rule snappy_loop_no_overwrite) (use h in simp)
  then show "subseq (splitlines sdict) (snappy_out m s sdict)"
    "set (snappy_out m s sdict) \<subseteq> insert (loc_str m s) (set (splitlines sdict))"
    by simp_all
next
  assume h: "((\<forall>L \<in> set (splitlines sdict). strip L \<noteq> ''castellatedMeshControls'')
       \<or> (\<forall>L \<in> set (splitlines sdict). strip L \<noteq> ''{''))
    \<and> ((\<forall>L \<in> set (splitlines sdict). \<not> startswith (strip L) ''refinementBox'')
       \<or> (\<forall>L \<in> set (splitlines sdict). \<not> startswith (strip L) ''min (''
              \<and> \<not> startswith (strip L) ''max (''))"
  have "snappy_loop (loc_str m s) (ref_min s) (ref_max m s) False False (splitlines sdict)
      = splitlines sdict"
    by (rule snappy_loop_unchanged) (use h in auto)
  then show "snappy_inject m s sdict = join [CHR 0x0A] (splitlines sdict) @ [CHR 0x0A]"
    by (simp add: snappy_inject_def snappy_out_def)
next
  assume h: "\<forall>L \<in> set (splitlines template). \<forall>k \<in> set block_keys. match_key k L = None"
  have "map (subst_line (values_of (domain_box b) dx dy dz)) (splitlines template)
      = splitlines template"
    by (rule map_idI, rule subst_line_unchanged) (use h in \<open>simp add: keys_values_of\<close>)
  then show "generate_blockMeshDict b dx dy dz template
          = join [CHR 0x0A] (splitlines template) @ [CHR 0x0A]"
    by (simp add: generate_blockMeshDict_def)
next
  assume "first_part ''xmin'' bmd = None"
  then have "read_block_bounds bmd = Inl AttributeError" by (rule read_no_xmin)
  then show "snappy_dict bmd s fname sdict = Inl AttributeError" by (simp add: snappy_dict_def)
next
  assume "read_block_bounds bmd = Inr m"
  then show "snappy_dict bmd s fname sdict = Inr (snappy_inject m s (snappy_rename fname sdict))"
    by (simp add: snappy_dict_def)
qed

theorem missing_structure_is_silent_witness:
  "list_all2 (\<lambda>out L. out = L \<or> out = ref_min unit_cube \<or> out = ref_max (domain_box unit_cube) unit_cube)
     (snappy_out (domain_box unit_cube) unit_cube
        (''refinementBox'' @ [CHR 0x0A] @ ''min (0 0 0);'' @ [CHR 0x0A] @ ''max (1 1 1);''))
     [''refinementBox'', ''min (0 0 0);'', ''max (1 1 1);'']
   \<and> subseq [''castellatedMeshControls'', ''{'', ''}'']
       (snappy_out (domain_box unit_cube) unit_cube
          (''castellatedMeshControls'' @ [CHR 0x0A] @ ''{'' @ [CHR 0x0A] @ ''}''))
   \<and> snappy_inject (domain_box unit_cube) unit_cube
       (''geometry'' @ [CHR 0x0A] @ ''{'' @ [CHR 0x0A] @ ''}'')
     = ''geometry'' @ [CHR 0x0A] @ ''{'' @ [CHR 0x0A] @ ''}'' @ [CHR 0x0A]
   \<and> generate_blockMeshDict unit_cube 1 1 1 (''scale 1;'' @ [CHR 0x0A] @ ''xminimum 2;'')
     = ''scale 1;'' @ [CHR 0x0A] @ ''xminimum 2;'' @ [CHR 0x0A]
   \<and> snappy_dict (''vertices ();'' @ [CHR 0x0A]) unit_cube ''wing.stl'' ''geometry''
     = Inl AttributeError
   \<and> snappy_dict (generate_blockMeshDict unit_cube (35/100) (35/100) 1 bounds_template)
        unit_cube ''wing.stl'' ''geometry''
     = Inr (snappy_inject (domain_box unit_cube) unit_cube (snappy_rename ''wing.stl'' ''geometry''))"
proof -
  have l1: "splitlines (''refinementBox'' @ [CHR 0x0A] @ ''min (0 0 0);'' @ [CHR 0x0A] @ ''max (1 1 1);'')
      = [''refinementBox'', ''min (0 0 0);'', ''max (1 1 1);'']"
    by (simp add: text_eval)
  have l2: "splitlines (''castellatedMeshControls'' @ [CHR 0x0A] @ ''{'' @ [CHR 0x0A] @ ''}'')
      = [''castellatedMeshControls'', ''{'', ''}'']"
    by (simp add: text_eval)
  have l3: "splitlines (''geometry'' @ [CHR 0x0A] @ ''{'' @ [CHR 0x0A] @ ''}'')
      = [''geometry'', ''{'', ''}'']"
    by (simp add: text_eval)
  have l4: "splitlines (''scale 1;'' @ [CHR 0x0A] @ ''xminimum 2;'') = [''scale 1;'', ''xminimum 2;'']"
    by (simp add: text_eval)
  have mk: "match_key ''xmin'' ''xminimum 2;'' = None"
    by (simp add: match_key_def is_space_def)
  have fp: "first_part ''xmin'' (''vertices ();'' @ [CHR 0x0A]) = None"
    by (simp add: key_part_def)
  have a: "list_all2 (\<lambda>out L. out = L \<or> out = ref_min unit_cube \<or> out = ref_max (domain_box unit_cube) unit_cube)
     (snappy_out (domain_box unit_cube) unit_cube
        (''refinementBox'' @ [CHR 0x0A] @ ''min (0 0 0);'' @ [CHR 0x0A] @ ''max (1 1 1);''))
     [''refinementBox'', ''min (0 0 0);'', ''max (1 1 1);'']"
    using missing_structure_is_silent
      [where sdict = "''refinementBox'' @ [CHR 0x0A] @ ''min (0 0 0);'' @ [CHR 0x0A] @ ''max (1 1 1);''"
         and m = "domain_box unit_cube" and s = unit_cube]
    unfolding l1 by (simp add: text_eval)
  have b: "subseq [''castellatedMeshControls'', ''{'', ''}'']
       (snappy_out (domain_box unit_cube) unit_cube
          (''castellatedMeshControls'' @ [CHR 0x0A] @ ''{'' @ [CHR 0x0A] @ ''}''))"
    using missing_structure_is_silent
      [where sdict = "''castellatedMeshControls'' @ [CHR 0x0A] @ ''{'' @ [CHR 0x0A] @ ''}''"
         and m = "domain_box unit_cube" and s = unit_cube]
    unfolding l2 by (simp add: text_eval)
  have c: "snappy_inject (domain_box unit_cube) unit_cube
       (''geometry'' @ [CHR 0x0A] @ ''{'' @ [CHR 0x0A] @ ''}'')
     = ''geometry'' @ [CHR 0x0A] @ ''{'' @ [CHR 0x0A] @ ''}'' @ [CHR 0x0A]"
    using missing_structure_is_silent
      [where sdict = "''geometry'' @ [CHR 0x0A] @ ''{'' @ [CHR 0x0A] @ ''}''"
         and m = "domain_box unit_cube" and s = unit_cube]
    unfolding l3 by (simp add: text_eval)
  have d: "generate_blockMeshDict unit_cube 1 1 1 (''scale 1;'' @ [CHR 0x0A] @ ''xminimum 2;'')
     = ''scale 1;'' @ [CHR 0x0A] @ ''xminimum 2;'' @ [CHR 0x0A]"
    using missing_structure_is_silent
      [where template = "''scale 1;'' @ [CHR 0x0A] @ ''xminimum 2;''"
         and b = unit_cube and dx = 1 and dy = 1 and dz = 1]
    unfolding l4 by (simp add: block_keys_def match_key_prefix mk)
  have e: "snappy_dict (''vertices ();'' @ [CHR 0x0A]) unit_cube ''wing.stl'' ''geometry''
     = Inl AttributeError"
    using missing_structure_is_silent
      [where bmd = "''vertices ();'' @ [CHR 0x0A]" and s = unit_cube and fname = "''wing.stl''"
         and sdict = "''geometry''"] fp
    by blast
  have f: "snappy_dict (generate_blockMeshDict unit_cube (35/100) (35/100) 1 bounds_template)
        unit_cube ''wing.stl'' ''geometry''
     = Inr (snappy_inject (domain_box unit_cube) unit_cube (snappy_rename ''wing.stl'' ''geometry''))"
    using missing_structure_is_silent
      [where bmd = "generate_blockMeshDict unit_cube (35/100) (35/100) 1 bounds_template"
         and m = "domain_box unit_cube" and s = unit_cube and fname = "''wing.stl''"
         and sdict = "''geometry''"] read_unit_cube
    by blast
  from a b c d e f show ?thesis by (intro conjI)
qed

section \<open>Results on the pipeline controller\<close>

lemma all_ok_append_event: "\<not> is_proc a \<Longrightarrow> all_ok ex (tr @ [a]) = all_ok ex tr"
  by (simp add: all_ok_def)

lemma all_ok_append_proc:
  "is_proc a \<Longrightarrow> all_ok ex tr \<Longrightarrow> ex (length (filter is_proc tr)) = 0 \<Longrightarrow> all_ok ex (tr @ [a])"
  by (auto simp add: all_ok_def less_Suc_eq)

lemma exec_well_ordered:
  "all_ok ex tr \<Longrightarrow> exec ex as tr = (tr', r) \<Longrightarrow>
     (case r of None \<Rightarrow> all_ok ex tr' \<and> tr' = tr @ as
              | Some e \<Rightarrow> (\<exists>a rc. e = CalledProcessError a rc \<and> stopped_at ex tr' a rc))"
proof (induction as arbitrary: tr)
  case Nil
  then show ?case by simp
next
  case (Cons a as)
  show ?case
  proof (cases "is_proc a")
    case False
    with Cons.prems have "exec ex as (tr @ [a]) = (tr', r)" by simp
    moreover from False Cons.prems(1) have "all_ok ex (tr @ [a])" by (simp add: all_ok_append_event)
    ultimately have "case r of None \<Rightarrow> all_ok ex tr' \<and> tr' = (tr @ [a]) @ as
              | Some e \<Rightarrow> (\<exists>a rc. e = CalledProcessError a rc \<and> stopped_at ex tr' a rc)"
      by (rule Cons.IH [rotated])
    then show ?thesis by (cases r) auto
  next
    case True
    show ?thesis
    proof (cases "ex (length (filter is_proc tr)) = 0")
      case z: True
      with True Cons.prems have "exec ex as (tr @ [a]) = (tr', r)" by simp
      moreover from True Cons.prems(1) z have "all_ok ex (tr @ [a])" by (rule all_ok_append_proc)
      ultimately have "case r of None \<Rightarrow> all_ok ex tr' \<and> tr' = (tr @ [a]) @ as
              | Some e \<Rightarrow> (\<exists>a rc. e = CalledProcessError a rc \<and> stopped_at ex tr' a rc)"
        by (rule Cons.IH [rotated])
      then show ?thesis by (cases r) auto
    next
      case nz: False
      with True Cons.prems(2) have t: "tr' = tr @ [a]"
        and r: "r = Some (CalledProcessError a (ex (length (filter is_proc tr))))"
        by (simp_all add: Let_def)
      have "stopped_at ex (tr @ [a]) a (ex (length (filter is_proc tr)))"
        unfolding stopped_at_def using True nz Cons.prems(1) by blast
      with t r show ?thesis by simp
    qed
  qed
qed

lemma exec_None_ok: "all_ok ex tr \<Longrightarrow> exec ex as tr = (tr', None) \<Longrightarrow> all_ok ex tr'"
  using exec_well_ordered [of ex tr as tr' None] by auto

lemma exec_Some_stopped:
  "all_ok ex tr \<Longrightarrow> exec ex as tr = (tr', Some e) \<Longrightarrow> well_ordered ex (tr', Failed e)"
  using exec_well_ordered [of ex tr as tr' "Some e"] by auto

lemma exec_result_well_ordered:
  assumes "all_ok ex tr"
    and "\<And>tr'. all_ok ex tr' \<Longrightarrow> well_ordered ex (k tr')"
  shows "well_ordered ex (case exec ex as tr of (tr', Some e) \<Rightarrow> (tr', Failed e) | (tr', None) \<Rightarrow> k tr')"
proof (cases "exec ex as tr")
  case (Pair tr' r)
  show ?thesis
  proof (cases r)
    case None
    with Pair assms(1) have "all_ok ex tr'" by (simp add: exec_None_ok)
    then have "well_ordered ex (k tr')" by (rule assms(2))
    with Pair None show ?thesis by simp
  next
    case (Some e)
    with Pair assms(1) have "well_ordered ex (tr', Failed e)" by (simp add: exec_Some_stopped)
    with Pair Some show ?thesis by simp
  qed
qed

lemma run_solver_well_ordered:
  assumes "all_ok (exit_of env) tr"
  shows "well_ordered (exit_of env) (run_solver env nproc inp tr)"
proof -
  define tr3 where "tr3 = tr @ (if foam_exists env then [] else [Touch_foam])"
  have ok: "all_ok (exit_of env) tr3"
    unfolding tr3_def using assms by (simp add: all_ok_append_event)
  show ?thesis
  proof (cases inp)
    case Nil
    with ok show ?thesis by (simp add: run_solver_def Let_def tr3_def)
  next
    case (Cons a3 rest)
    have "well_ordered (exit_of env)
        (case exec (exit_of env) (solve_stage (is_yes a3) nproc (read_solver (controlDict env))) tr3 of
           (tr4, Some e) \<Rightarrow> (tr4, Failed e) | (tr4, None) \<Rightarrow> (tr4, Completed))"
      using ok by (rule exec_result_well_ordered) simp
    with Cons show ?thesis by (simp add: run_solver_def Let_def tr3_def)
  qed
qed

lemma run_refine_well_ordered:
  assumes "all_ok (exit_of env) tr"
  shows "well_ordered (exit_of env) (run_refine env tr)"
proof (cases "stdin env")
  case Nil
  with assms show ?thesis by (simp add: run_refine_def)
next
  case (Cons a1 inp)
  show ?thesis
  proof (cases "is_yes a1")
    case False
    have "well_ordered (exit_of env)
        (case exec (exit_of env) (refine_stage False 1) tr of
           (tr2, Some e) \<Rightarrow> (tr2, Failed e) | (tr2, None) \<Rightarrow> run_solver env 1 inp tr2)"
      using assms by (rule exec_result_well_ordered) (rule run_solver_well_ordered)
    with Cons False show ?thesis by (simp add: run_refine_def)
  next
    case True
    show ?thesis
    proof (cases inp)
      case Nil
      with Cons True assms show ?thesis by (simp add: run_refine_def)
    next
      case inp: (Cons a2 inp')
      show ?thesis
      proof (cases "read_nproc a2")
        case None
        with Cons True inp assms show ?thesis by (simp add: run_refine_def)
      next
        case (Some nproc)
        have "well_ordered (exit_of env)
            (case exec (exit_of env) (refine_stage True nproc) tr of
               (tr2, Some e) \<Rightarrow> (tr2, Failed e) | (tr2, None) \<Rightarrow> run_solver env nproc inp' tr2)"
          using assms by (rule exec_result_well_ordered) (rule run_solver_well_ordered)
        with Cons True inp Some show ?thesis by (simp add: run_refine_def)
      qed
    qed
  qed
qed

lemma main_well_ordered: "well_ordered (exit_of env) (main env)"
proof (cases "stl_files env = []")
  case True
  then show ?thesis by (simp add: main_def all_ok_def)
next
  case False
  define tr0 where "tr0 = (if case_exists env then [Rmtree_case] else []) @ [Mkdir_case]"
  have m: "main env =
      (case exec (exit_of env) [Prepare_case, Proc ''blockMesh'', Proc ''surfaceFeatureExtract''] tr0 of
         (tr1, Some e) \<Rightarrow> (tr1, Failed e) | (tr1, None) \<Rightarrow> run_refine env tr1)"
    unfolding main_def Let_def tr0_def using False by (simp only: if_False)
  have "all_ok (exit_of env) tr0" by (simp add: tr0_def all_ok_def)
  then have "well_ordered (exit_of env)
      (case exec (exit_of env) [Prepare_case, Proc ''blockMesh'', Proc ''surfaceFeatureExtract''] tr0 of
         (tr1, Some e) \<Rightarrow> (tr1, Failed e) | (tr1, None) \<Rightarrow> run_refine env tr1)"
    by (rule exec_result_well_ordered) (rule run_refine_well_ordered)
  then show ?thesis unfolding m .
qed

lemma all_ok_but_last: "all_ok ex tr \<Longrightarrow> Suc i < length (filter is_proc tr) \<Longrightarrow> ex i = 0"
  by (simp add: all_ok_def)

lemma stopped_at_but_last:
  "stopped_at ex tr a rc \<Longrightarrow> Suc i < length (filter is_proc tr) \<Longrightarrow> ex i = 0"
  by (auto simp add: stopped_at_def all_ok_def)

lemma well_ordered_but_last:
  assumes "well_ordered ex (tr, out)" "Suc i < length (filter is_proc tr)"
  shows "ex i = 0"
proof (cases out)
  case (Failed e)
  show ?thesis
  proof (cases e)
    case (CalledProcessError a rc)
    with Failed assms show ?thesis by (simp add: stopped_at_but_last)
  qed (use Failed assms in \<open>simp_all add: all_ok_but_last\<close>)
qed (use assms in \<open>simp_all add: all_ok_but_last\<close>)

lemma main_features_fail:
  assumes "stl_files env \<noteq> []" "exit_of env 0 = 0" "exit_of env 1 = 0" "exit_of env 2 \<noteq> 0"
  shows "main env = ((if case_exists env then [Rmtree_case] else [])
                 @ [Mkdir_case, Prepare_case, Proc ''blockMesh'', Proc ''surfaceFeatureExtract''],
             Failed (CalledProcessError (Proc ''surfaceFeatureExtract'') (exit_of env 2)))"
  using assms by (cases "case_exists env") (simp_all add: main_def Let_def numeral_2_eq_2)

text \<open>
  C8.  In every run, each external process but the last one started has exited with
  status zero, so no stage begins before its predecessor has succeeded.  When the run
  ends with a \<open>CalledProcessError\<close>, the error names the last process started and its
  non-zero status.  When feature extraction, the third process, exits with a non-zero
  status after case preparation and \<open>blockMesh\<close> succeeded, the trace ends there: no
  refinement and no later stage is started, and the error names
  \<open>surfaceFeatureExtract\<close>.
\<close>

theorem stage_failure_stops_run:
  "(\<forall>i. Suc i < length (filter is_proc (fst (main env))) \<longrightarrow> exit_of env i = 0)
   \<and> (\<forall>a rc. snd (main env) = Failed (CalledProcessError a rc) \<longrightarrow>
         fst (main env) \<noteq> [] \<and> last (fst (main env)) = a \<and> is_proc a \<and> rc \<noteq> 0
         \<and> rc = exit_of env (length (filter is_proc (fst (main env))) - 1))
   \<and> (stl_files env \<noteq> [] \<and> exit_of env 0 = 0 \<and> exit_of env 1 = 0 \<and> exit_of env 2 \<noteq> 0 \<longrightarrow>
         main env = ((if case_exists env then [Rmtree_case] else [])
                       @ [Mkdir_case, Prepare_case, Proc ''blockMesh'', Proc ''surfaceFeatureExtract''],
                     Failed (CalledProcessError (Proc ''surfaceFeatureExtract'') (exit_of env 2))))"
proof (intro conjI allI impI)
  fix i assume "Suc i < length (filter is_proc (fst (main env)))"
  moreover have "well_ordered (exit_of env) (fst (main env), snd (main env))"
    using main_well_ordered [of env] by simp
  ultimately show "exit_of env i = 0" by (rule well_ordered_but_last [rotated])
next
  fix a rc assume f: "snd (main env) = Failed (CalledProcessError a rc)"
  have "well_ordered (exit_of env) (fst (main env), snd (main env))"
    using main_well_ordered [of env] by simp
  with f have "stopped_at (exit_of env) (fst (main env)) a rc" by simp
  then obtain pre where p: "fst (main env) = pre @ [a]" "is_proc a"
    "rc = exit_of env (length (filter is_proc pre))" "rc \<noteq> 0"
    unfolding stopped_at_def by blast
  then show "fst (main env) \<noteq> []" "last (fst (main env)) = a" "is_proc a" "rc \<noteq> 0"
    "rc = exit_of env (length (filter is_proc (fst (main env))) - 1)"
    by simp_all
next
  assume "stl_files env \<noteq> [] \<and> exit_of env 0 = 0 \<and> exit_of env 1 = 0 \<and> exit_of env 2 \<noteq> 0"
  then show "main env = ((if case_exists env then [Rmtree_case] else [])
                       @ [Mkdir_case, Prepare_case, Proc ''blockMesh'', Proc ''surfaceFeatureExtract''],
                     Failed (CalledProcessError (Proc ''surfaceFeatureExtract'') (exit_of env 2)))"
    by (intro main_features_fail) simp_all
qed

theorem stage_failure_stops_run_witness:
  "main features_fail
     = ([Rmtree_case, Mkdir_case, Prepare_case, Proc ''blockMesh'', Proc ''surfaceFeatureExtract''],
        Failed (CalledProcessError (Proc ''surfaceFeatureExtract'') 1))
   \<and> exit_of features_fail 0 = 0 \<and> exit_of features_fail 1 = 0"
  using stage_failure_stops_run [of features_fail]
  by (simp add: features_fail_def)

lemmas run_eval = main_def run_refine_def run_solver_def refine_stage_def solve_stage_def
  is_yes_def lower_def lower_char_def read_nproc_def py_int_def digits_value_def digit_value_def
  is_digit_def read_solver_def match_application_def show_int_def show_nat_small digit_char_def
  Let_def

text \<open>
  C10.  The solve stage has no worker count of its own: it runs \<open>mpirun\<close> with the
  count of the refinement stage.  When the mesh is refined on one core and the solver
  is run in parallel, only two prompts are read and the solver is started with
  \<open>-np 1\<close>; when eight cores are chosen for the refinement, the solver is started with
  \<open>-np 8\<close>, and no further count is asked for.
\<close>

theorem solve_stage_worker_count:
  "main serial_then_parallel
     = ([Mkdir_case, Prepare_case, Proc ''blockMesh'', Proc ''surfaceFeatureExtract'',
         Proc ''snappyHexMesh -dict system/snappyHexMeshDict -overwrite'', Touch_foam,
         Proc ''decomposePar'', Proc ''mpirun -np 1 simpleFoam -parallel'',
         Proc ''reconstructPar''], Completed)
   \<and> main parallel_both
     = ([Rmtree_case, Mkdir_case, Prepare_case, Proc ''blockMesh'', Proc ''surfaceFeatureExtract'',
         Proc ''decomposePar'',
         Proc ''mpirun -np 8 snappyHexMesh -dict system/snappyHexMeshDict -parallel -overwrite'',
         Proc ''reconstructParMesh -constant'', Rm_processor_dirs,
         Proc ''decomposePar'', Proc ''mpirun -np 8 pimpleFoam -parallel'',
         Proc ''reconstructPar''], Completed)"
proof -
  have a: "main serial_then_parallel
     = ([Mkdir_case, Prepare_case, Proc ''blockMesh'', Proc ''surfaceFeatureExtract'',
         Proc ''snappyHexMesh -dict system/snappyHexMeshDict -overwrite'', Touch_foam,
         Proc ''decomposePar'', Proc ''mpirun -np 1 simpleFoam -parallel'',
         Proc ''reconstructPar''], Completed)"
    by (simp add: serial_then_parallel_def run_eval text_eval)
  have b: "main parallel_both
     = ([Rmtree_case, Mkdir_case, Prepare_case, Proc ''blockMesh'', Proc ''surfaceFeatureExtract'',
         Proc ''decomposePar'',
         Proc ''mpirun -np 8 snappyHexMesh -dict system/snappyHexMeshDict -parallel -overwrite'',
         Proc ''reconstructParMesh -constant'', Rm_processor_dirs,
         Proc ''decomposePar'', Proc ''mpirun -np 8 pimpleFoam -parallel'',
         Proc ''reconstructPar''], Completed)"
    by (simp add: parallel_both_def run_eval text_eval)
  from a b show ?thesis ..
qed

end
